theory Spec2Isabelle
  imports Main "HOL-Library.Word" "HOL-Library.Char_ord" "HOL-Library.List_Lexorder" "HOL-Library.Sublist"
begin

section \<open>Data model (internal/database/models.go)\<close>

text \<open>
  An instant is a count of nanoseconds since the Unix epoch, as \<^verbatim>\<open>time.Time\<close> keeps it. A
  \<^verbatim>\<open>time.Time\<close> decoded from a request also carries the zone it was written in, as the
  offset east of UTC in seconds: the record \<open>Time\<close>, used for \<^verbatim>\<open>expires_at\<close>. For
  \<^verbatim>\<open>created_at\<close> and \<^verbatim>\<open>updated_at\<close>, which the store's clock gives, the instant alone is kept.
  A \<^verbatim>\<open>uuid.UUID\<close> is kept in the canonical text form that
  \<^verbatim>\<open>id.String()\<close> yields, which is also what the driver stores and compares.
  A Go pointer field is an \<open>option\<close>: \<open>None\<close> is \<^verbatim>\<open>nil\<close>.
\<close>

type_synonym time = int
type_synonym uuid = string

record Time =
  instant :: time
  zone :: int

record URL =
  ID :: uuid
  ShortPath :: string
  Destination :: string
  Title :: "string option"
  Description :: "string option"
  ImageURL :: "string option"
  ExpiresAt :: "Time option"
  CreatedAt :: time
  UpdatedAt :: time

record CreateURLRequest =
  cr_ShortPath :: "string option"
  cr_Destination :: string
  cr_Title :: "string option"
  cr_Description :: "string option"
  cr_ImageURL :: "string option"
  cr_ExpiresAt :: "Time option"

text \<open>
  \<^verbatim>\<open>UpdateURLRequest.ExpiresAt\<close> is a \<^verbatim>\<open>**time.Time\<close>: \<open>None\<close> is the nil outer pointer
  (field not in the request), \<open>Some None\<close> an outer pointer to a nil inner pointer
  (explicit null), \<open>Some (Some t)\<close> a new instant.
\<close>

record UpdateURLRequest =
  up_ShortPath :: "string option"
  up_Destination :: "string option"
  up_Title :: "string option"
  up_Description :: "string option"
  up_ImageURL :: "string option"
  up_ExpiresAt :: "Time option option"

text \<open>
  The zero value of the Go struct \<^verbatim>\<open>URL\<close>: \<^verbatim>\<open>uuid.Nil\<close>, empty strings, nil pointers and the
  zero \<^verbatim>\<open>time.Time\<close> (1 January of year 1, in nanoseconds before the Unix epoch).
\<close>

definition zero_time :: time where
  "zero_time = - 62135596800000000000"

definition zero_URL :: URL where
  "zero_URL = \<lparr>ID = ''00000000-0000-0000-0000-000000000000'', ShortPath = [], Destination = [],
     Title = None, Description = None, ImageURL = None, ExpiresAt = None,
     CreatedAt = zero_time, UpdatedAt = zero_time\<rparr>"

section \<open>Short-path validation (handlers.go, isValidShortPath and isReservedPath)\<close>

text \<open>
  A Go string is modelled by its bytes. \<^verbatim>\<open>len\<close> counts bytes, as \<open>length\<close> does here; the
  \<^verbatim>\<open>range\<close> loop of \<^verbatim>\<open>isValidShortPath\<close> walks runes, and a rune outside ASCII is built from
  bytes that are each outside the four accepted ranges, so the loop over bytes rejects
  exactly the strings the loop over runes rejects.
\<close>

definition reservedPaths :: "string list" where
  "reservedPaths =
    [''api'', ''health'', ''urls'',
     ''swagger'', ''docs'', ''doc'', ''api-docs'', ''openapi'',
     ''admin'', ''login'', ''logout'', ''register'', ''signup'', ''signin'', ''dashboard'',
     ''profile'', ''settings'', ''help'', ''support'', ''contact'', ''about'', ''privacy'',
     ''terms'', ''faq'',
     ''get'', ''post'', ''put'', ''patch'', ''delete'', ''head'', ''options'',
     ''css'', ''js'', ''png'', ''jpg'', ''jpeg'', ''gif'', ''svg'', ''ico'', ''pdf'', ''txt'',
     ''xml'', ''json'']"

text \<open>
  \<^verbatim>\<open>strings.ToLower\<close> on bytes: the letters A to Z move to a to z. (On a string with bytes
  outside ASCII the library also folds other scripts; such a string never passes the
  character loop of \<^verbatim>\<open>isValidShortPath\<close>, so only the wording of the rejection could differ.)
\<close>

definition lower_char :: "char \<Rightarrow> char" where
  "lower_char c = (if CHR ''A'' \<le> c \<and> c \<le> CHR ''Z'' then char_of (of_char c + (32::nat)) else c)"

definition ToLower :: "string \<Rightarrow> string" where
  "ToLower s = map lower_char s"

fun reserved_loop :: "string \<Rightarrow> string list \<Rightarrow> bool" where
  "reserved_loop lowerPath [] = False"
| "reserved_loop lowerPath (reserved # rest) =
     (if lowerPath = reserved then True else reserved_loop lowerPath rest)"

definition isReservedPath :: "string \<Rightarrow> bool" where
  "isReservedPath shortPath = reserved_loop (ToLower shortPath) reservedPaths"

definition allowed_char :: "char \<Rightarrow> bool" where
  "allowed_char c \<longleftrightarrow>
     (CHR ''a'' \<le> c \<and> c \<le> CHR ''z'') \<or> (CHR ''A'' \<le> c \<and> c \<le> CHR ''Z'') \<or>
     (CHR ''0'' \<le> c \<and> c \<le> CHR ''9'') \<or> c = CHR ''-''"

fun chars_loop :: "string \<Rightarrow> bool" where
  "chars_loop [] = True"
| "chars_loop (c # cs) = (if \<not> allowed_char c then False else chars_loop cs)"

definition isValidShortPath :: "string \<Rightarrow> bool" where
  "isValidShortPath shortPath =
     (if length shortPath < 1 \<or> length shortPath > 255 then False
      else if \<not> chars_loop shortPath then False
      else if isReservedPath shortPath then False
      else True)"

section \<open>Short-path generation (database package, generateRandomString)\<close>

definition charset :: string where
  "charset = ''abcdefghijklmnopqrstuvwxyzABCDEFGHIJKLMNOPQRSTUVWXYZ0123456789''"

definition minLength :: nat where
  "minLength = 6"

definition maxAttempts :: nat where
  "maxAttempts = 10"

text \<open>
  \<^verbatim>\<open>crypto/rand\<close> is an input of the model: \<open>rnd k\<close> is the entropy of the \<open>k\<close>-th draw since
  the start of the request, and \<^verbatim>\<open>rand.Int(rand.Reader, max)\<close> turns it into an index below
  \<open>max\<close>. A generator started at draw \<open>pos\<close> uses the draws \<open>pos, pos + 1, ...\<close>, one per byte.
\<close>

definition rand_Int :: "nat \<Rightarrow> nat \<Rightarrow> nat" where
  "rand_Int entropy bound = entropy mod bound"

definition generateRandomString :: "(nat \<Rightarrow> nat) \<Rightarrow> nat \<Rightarrow> nat \<Rightarrow> string" where
  "generateRandomString rnd pos len =
     map (\<lambda>i. charset ! rand_Int (rnd (pos + i)) (length charset)) [0..<len]"

section \<open>Uniqueness resolver (database package, generateUniqueShortPath)\<close>

text \<open>
  The loop of \<^verbatim>\<open>generateUniqueShortPath\<close>, with the existence check it calls taken as the
  state-passing function \<open>chk\<close>: a check returns an error message (\<open>Inl\<close>) or the answer
  (\<open>Inr\<close>), and the state of the store it talked to. The method of the source is the
  instance at \<open>shortPathExists\<close>, further down.
\<close>

function resolver_loop ::
  "(string \<Rightarrow> 's \<Rightarrow> (string + bool) \<times> 's) \<Rightarrow> (nat \<Rightarrow> nat) \<Rightarrow> nat \<Rightarrow> nat \<Rightarrow> 's \<Rightarrow> (string + string) \<times> 's"
where
  "resolver_loop chk rnd pos attempt s =
     (if attempt < maxAttempts then
        (let len = minLength + attempt;
             shortPath = generateRandomString rnd pos len
         in case chk shortPath s of
              (Inl err, s') \<Rightarrow> (Inl err, s')
            | (Inr exists, s') \<Rightarrow>
                if \<not> exists then (Inr shortPath, s')
                else resolver_loop chk rnd (pos + len) (attempt + 1) s')
      else (Inl ''failed to generate unique short path after 10 attempts'', s))"
  by pat_completeness auto
termination
  by (relation "measure (\<lambda>(chk, rnd, pos, attempt, s). maxAttempts - attempt)") auto

declare resolver_loop.simps [simp del]

definition resolve_with ::
  "(string \<Rightarrow> 's \<Rightarrow> (string + bool) \<times> 's) \<Rightarrow> (nat \<Rightarrow> nat) \<Rightarrow> 's \<Rightarrow> (string + string) \<times> 's"
where
  "resolve_with chk rnd s = resolver_loop chk rnd 0 0 s"

text \<open>
  A simulated store for the resolver: its \<open>k\<close>-th existence check answers \<open>ans k\<close>, whatever
  the candidate, and the state of the simulation is the list of the candidates it was asked about, in order.
\<close>

definition sim_exists :: "(nat \<Rightarrow> string + bool) \<Rightarrow> string \<Rightarrow> string list \<Rightarrow> (string + bool) \<times> string list" where
  "sim_exists ans shortPath asked = (ans (length asked), asked @ [shortPath])"

definition sim_run :: "(nat \<Rightarrow> string + bool) \<Rightarrow> (nat \<Rightarrow> nat) \<Rightarrow> (string + string) \<times> string list" where
  "sim_run ans rnd = resolve_with (sim_exists ans) rnd []"

definition exhausted_msg :: string where
  "exhausted_msg = ''failed to generate unique short path after 10 attempts''"

text \<open>
  What a run of the loop against the simulated store must satisfy when it starts at attempt
  \<open>a\<close>: the invariant used to prove the resolver's contract.
\<close>

definition sim_post :: "(nat \<Rightarrow> string + bool) \<Rightarrow> nat \<Rightarrow> (string + string) \<times> string list \<Rightarrow> bool" where
  "sim_post ans a r = (case r of (res, asked') \<Rightarrow>
      (\<forall>i<length asked'. length (asked' ! i) = minLength + i) \<and>
      (\<forall>n. a \<le> n \<and> n < maxAttempts \<and> (\<forall>i. a \<le> i \<and> i < n \<longrightarrow> ans i = Inr True) \<longrightarrow>
         (ans n = Inr False \<longrightarrow> res = Inr (asked' ! n) \<and> length asked' = n + 1) \<and>
         (\<forall>e. ans n = Inl e \<longrightarrow> res = Inl e \<and> length asked' = n + 1)) \<and>
      ((\<forall>i. a \<le> i \<and> i < maxAttempts \<longrightarrow> ans i = Inr True) \<longrightarrow>
         res = Inl exhausted_msg \<and> length asked' = maxAttempts))"

section \<open>Record store (database package)\<close>

text \<open>
  The table \<^verbatim>\<open>urls\<close> is the list of its rows, in insertion order. Its constraints are those of
  \<^verbatim>\<open>createSQLiteTables\<close> and \<^verbatim>\<open>createTables\<close>: \<^verbatim>\<open>id\<close> is the primary key and \<^verbatim>\<open>short_path\<close> is
  unique. The statements are written in the dialect of SQLite (\<^verbatim>\<open>datetime('now')\<close>), the
  engine of \<^verbatim>\<open>InitSQLiteDB\<close>, and are read as that engine reads them: \<open>now\<close> is the
  reading of the engine's clock when the statement runs, the instant that
  \<^verbatim>\<open>CURRENT_TIMESTAMP\<close> and \<^verbatim>\<open>datetime('now')\<close> stand for, and the placeholders take the
  arguments in the order the method appends them.

  The driver is outside the program, so what it may do is an input: \<open>db_errs\<close> holds the
  outcomes of the coming round trips (\<open>Some msg\<close>: that call fails with the message \<open>msg\<close>;
  \<open>None\<close>, or nothing left: it goes through), \<open>unique_msg\<close> and \<open>pkey_msg\<close> are the driver's
  messages for a violated unique index on \<^verbatim>\<open>short_path\<close> and a violated primary key. Every
  statement sent is appended to \<open>db_log\<close>. A Go \<^verbatim>\<open>error\<close> is its message, since the handlers
  inspect \<^verbatim>\<open>err.Error()\<close>.
\<close>

datatype db_stmt =
    SelectExists string
  | Insert uuid string
  | SelectByID uuid
  | SelectByShortPath string
  | SelectCount
  | SelectPage "64 word" "64 word"
  | Update uuid UpdateURLRequest
  | Delete uuid

record DB =
  urls :: "URL list"
  db_errs :: "string option list"
  unique_msg :: string
  pkey_msg :: string
  db_log :: "db_stmt list"

definition send :: "db_stmt \<Rightarrow> DB \<Rightarrow> string option \<times> DB" where
  "send stmt db =
     (case db_errs db of
        [] \<Rightarrow> (None, db\<lparr>db_log := db_log db @ [stmt]\<rparr>)
      | e # es \<Rightarrow> (e, db\<lparr>db_errs := es, db_log := db_log db @ [stmt]\<rparr>))"

definition shortPathExists :: "string \<Rightarrow> DB \<Rightarrow> (string + bool) \<times> DB" where
  "shortPathExists shortPath db =
     (case send (SelectExists shortPath) db of
        (Some err, db') \<Rightarrow> (Inl err, db')
      | (None, db') \<Rightarrow> (Inr (\<exists>r \<in> set (urls db'). ShortPath r = shortPath), db'))"

definition generateUniqueShortPath :: "(nat \<Rightarrow> nat) \<Rightarrow> DB \<Rightarrow> (string + string) \<times> DB" where
  "generateUniqueShortPath rnd db = resolve_with shortPathExists rnd db"

text \<open>
  \<^verbatim>\<open>CreateURL\<close>: \<open>new_id\<close> is what \<^verbatim>\<open>uuid.New()\<close> returns; the columns \<^verbatim>\<open>created_at\<close> and
  \<^verbatim>\<open>updated_at\<close> take their default, the instant of the insertion.
\<close>

definition db_CreateURL :: "time \<Rightarrow> (nat \<Rightarrow> nat) \<Rightarrow> uuid \<Rightarrow> CreateURLRequest \<Rightarrow> DB \<Rightarrow> (string + URL) \<times> DB" where
  "db_CreateURL now rnd new_id req db =
     (case (case cr_ShortPath req of
              None \<Rightarrow> generateUniqueShortPath rnd db
            | Some p \<Rightarrow> if p = [] then generateUniqueShortPath rnd db else (Inr p, db)) of
        (Inl err, db1) \<Rightarrow> (Inl (''failed to generate short path: '' @ err), db1)
      | (Inr shortPath, db1) \<Rightarrow>
          (case send (Insert new_id shortPath) db1 of
             (Some err, db2) \<Rightarrow> (Inl (''failed to create URL: '' @ err), db2)
           | (None, db2) \<Rightarrow>
               if \<exists>r \<in> set (urls db2). ID r = new_id
               then (Inl (''failed to create URL: '' @ pkey_msg db2), db2)
               else if \<exists>r \<in> set (urls db2). ShortPath r = shortPath
               then (Inl (''failed to create URL: '' @ unique_msg db2), db2)
               else
                 (let url = \<lparr>ID = new_id, ShortPath = shortPath, Destination = cr_Destination req,
                              Title = cr_Title req, Description = cr_Description req,
                              ImageURL = cr_ImageURL req, ExpiresAt = cr_ExpiresAt req,
                              CreatedAt = now, UpdatedAt = now\<rparr>
                  in (Inr url, db2\<lparr>urls := urls db2 @ [url]\<rparr>))))"

text \<open>A lookup that finds no row is \<^verbatim>\<open>sql.ErrNoRows\<close>, returned as \<^verbatim>\<open>(nil, nil)\<close>: \<open>Inr None\<close>.\<close>

definition db_GetURLByID :: "uuid \<Rightarrow> DB \<Rightarrow> (string + URL option) \<times> DB" where
  "db_GetURLByID uid db =
     (case send (SelectByID uid) db of
        (Some err, db') \<Rightarrow> (Inl (''failed to get URL: '' @ err), db')
      | (None, db') \<Rightarrow> (Inr (find (\<lambda>r. ID r = uid) (urls db')), db'))"

text \<open>
  \<^verbatim>\<open>GetURLByShortPath\<close> adds \<^verbatim>\<open>expires_at IS NULL OR expires_at > datetime('now')\<close>. Both sides
  of the comparison are text, and SQLite orders text byte by byte, a proper prefix first.
  The column holds what the driver wrote for the \<^verbatim>\<open>time.Time\<close> of the request: the wall-clock
  reading in the value's own zone, laid out as \<^verbatim>\<open>2006-01-02 15:04:05.999999999-07:00\<close> (the
  fraction without its trailing zeros, and absent when zero). \<^verbatim>\<open>datetime('now')\<close> is the UTC
  reading of the current second, \<^verbatim>\<open>YYYY-MM-DD HH:MM:SS\<close>. The layouts below are for the years
  0000 to 9999; the date of a day count follows the proleptic Gregorian calendar.
\<close>

definition digit :: "int \<Rightarrow> char" where
  "digit d = char_of (48 + d)"

definition pad2 :: "int \<Rightarrow> string" where
  "pad2 n = [digit (n div 10 mod 10), digit (n mod 10)]"

definition pad4 :: "int \<Rightarrow> string" where
  "pad4 n = [digit (n div 1000 mod 10), digit (n div 100 mod 10), digit (n div 10 mod 10), digit (n mod 10)]"

definition civil_from_days :: "int \<Rightarrow> int \<times> int \<times> int" where
  "civil_from_days days =
     (let z = days + 719468;
          era = z div 146097;
          doe = z mod 146097;
          yoe = (doe - doe div 1460 + doe div 36524 - doe div 146096) div 365;
          doy = doe - (365 * yoe + yoe div 4 - yoe div 100);
          mp = (5 * doy + 2) div 153;
          d = doy - (153 * mp + 2) div 5 + 1;
          m = (if mp < 10 then mp + 3 else mp - 9);
          y = yoe + era * 400 + (if m \<le> 2 then 1 else 0)
      in (y, m, d))"

definition wall_clock :: "int \<Rightarrow> string" where
  "wall_clock secs =
     (case civil_from_days (secs div 86400) of
        (y, m, d) \<Rightarrow>
          pad4 y @ ''-'' @ pad2 m @ ''-'' @ pad2 d @ '' '' @
          pad2 (secs mod 86400 div 3600) @ '':'' @ pad2 (secs mod 3600 div 60) @ '':'' @ pad2 (secs mod 60))"

fun strip_zeros :: "string \<Rightarrow> string" where
  "strip_zeros [] = []"
| "strip_zeros (c # cs) =
     (case strip_zeros cs of [] \<Rightarrow> (if c = CHR ''0'' then [] else [c]) | r \<Rightarrow> c # r)"

definition fraction :: "int \<Rightarrow> string" where
  "fraction nanos =
     (if nanos = 0 then []
      else ''.'' @ strip_zeros (map (\<lambda>i. digit (nanos div 10 ^ (8 - i) mod 10)) [0..<9]))"

definition offset_text :: "int \<Rightarrow> string" where
  "offset_text off =
     (if off < 0 then ''-'' @ pad2 ((- off) div 3600) @ '':'' @ pad2 ((- off) mod 3600 div 60)
      else ''+'' @ pad2 (off div 3600) @ '':'' @ pad2 (off mod 3600 div 60))"

definition driver_text :: "Time \<Rightarrow> string" where
  "driver_text t =
     wall_clock ((instant t + zone t * 1000000000) div 1000000000) @
     fraction (instant t mod 1000000000) @ offset_text (zone t)"

definition datetime_now :: "time \<Rightarrow> string" where
  "datetime_now now = wall_clock (now div 1000000000)"

definition live :: "time \<Rightarrow> URL \<Rightarrow> bool" where
  "live now r = (case ExpiresAt r of None \<Rightarrow> True | Some t \<Rightarrow> driver_text t > datetime_now now)"

definition db_GetURLByShortPath :: "time \<Rightarrow> string \<Rightarrow> DB \<Rightarrow> (string + URL option) \<times> DB" where
  "db_GetURLByShortPath now shortPath db =
     (case send (SelectByShortPath shortPath) db of
        (Some err, db') \<Rightarrow> (Inl (''failed to get URL by short path: '' @ err), db')
      | (None, db') \<Rightarrow> (Inr (find (\<lambda>r. ShortPath r = shortPath \<and> live now r) (urls db')), db'))"

text \<open>
  \<^verbatim>\<open>UpdateURL\<close> builds \<^verbatim>\<open>UPDATE urls SET updated_at = datetime('now') ... WHERE id = ...\<close> with
  one assignment for each request field that is not nil; \<open>set_clauses\<close> is that list of
  assignments applied to a row, in the order of the source.
\<close>

definition set_clauses :: "time \<Rightarrow> UpdateURLRequest \<Rightarrow> URL \<Rightarrow> URL" where
  "set_clauses now req r =
     (let r0 = r\<lparr>UpdatedAt := now\<rparr>;
          r1 = (case up_ShortPath req of None \<Rightarrow> r0 | Some v \<Rightarrow> r0\<lparr>ShortPath := v\<rparr>);
          r2 = (case up_Destination req of None \<Rightarrow> r1 | Some v \<Rightarrow> r1\<lparr>Destination := v\<rparr>);
          r3 = (case up_Title req of None \<Rightarrow> r2 | Some v \<Rightarrow> r2\<lparr>Title := Some v\<rparr>);
          r4 = (case up_Description req of None \<Rightarrow> r3 | Some v \<Rightarrow> r3\<lparr>Description := Some v\<rparr>);
          r5 = (case up_ImageURL req of None \<Rightarrow> r4 | Some v \<Rightarrow> r4\<lparr>ImageURL := Some v\<rparr>)
      in (case up_ExpiresAt req of
            None \<Rightarrow> r5
          | Some None \<Rightarrow> r5\<lparr>ExpiresAt := None\<rparr>
          | Some (Some t) \<Rightarrow> r5\<lparr>ExpiresAt := Some t\<rparr>))"

definition db_UpdateURL :: "time \<Rightarrow> uuid \<Rightarrow> UpdateURLRequest \<Rightarrow> DB \<Rightarrow> (string + URL option) \<times> DB" where
  "db_UpdateURL now uid req db =
     (case send (Update uid req) db of
        (Some err, db') \<Rightarrow> (Inl (''failed to update URL: '' @ err), db')
      | (None, db') \<Rightarrow>
          (case find (\<lambda>r. ID r = uid) (urls db') of
             None \<Rightarrow> (Inr None, db')
           | Some r \<Rightarrow>
               if \<exists>r2 \<in> set (urls db'). ID r2 \<noteq> uid \<and> ShortPath r2 = ShortPath (set_clauses now req r)
               then (Inl (''failed to update URL: '' @ unique_msg db'), db')
               else (Inr (Some (set_clauses now req r)),
                     db'\<lparr>urls := map (\<lambda>r. if ID r = uid then set_clauses now req r else r) (urls db')\<rparr>)))"

text \<open>
  \<^verbatim>\<open>DeleteURL\<close>: the statement, then \<^verbatim>\<open>result.RowsAffected()\<close>, which is a second call into the
  driver with an error result of its own, then the test for zero rows.
\<close>

definition db_DeleteURL :: "uuid \<Rightarrow> DB \<Rightarrow> string option \<times> DB" where
  "db_DeleteURL uid db =
     (case send (Delete uid) db of
        (Some err, db1) \<Rightarrow> (Some (''failed to delete URL: '' @ err), db1)
      | (None, db1) \<Rightarrow>
          (let rowsAffected = length (filter (\<lambda>r. ID r = uid) (urls db1));
               db2 = db1\<lparr>urls := filter (\<lambda>r. ID r \<noteq> uid) (urls db1)\<rparr>
           in case db_errs db2 of
                Some err # es \<Rightarrow> (Some (''failed to get rows affected: '' @ err), db2\<lparr>db_errs := es\<rparr>)
              | None # es \<Rightarrow>
                  (if rowsAffected = 0 then Some ''URL not found'' else None, db2\<lparr>db_errs := es\<rparr>)
              | [] \<Rightarrow> (if rowsAffected = 0 then Some ''URL not found'' else None, db2)))"

text \<open>
  \<^verbatim>\<open>ListURLs\<close>. Go's \<^verbatim>\<open>int\<close> is the 64-bit signed integer of the build targets, a \<open>64 word\<close>
  read with \<open>sint\<close>; the product wraps. The page query is read as SQLite reads it: a negative
  \<^verbatim>\<open>OFFSET\<close> counts as zero and a negative \<^verbatim>\<open>LIMIT\<close> as no limit; rows with the same
  \<^verbatim>\<open>created_at\<close> come in an order SQL leaves open, here newest insertion first.
\<close>

record ListURLsResponse =
  URLs :: "URL list"
  Total :: "64 word"
  Page :: "64 word"
  Limit :: "64 word"

definition ListURLs_offset :: "64 word \<Rightarrow> 64 word \<Rightarrow> 64 word" where
  "ListURLs_offset page limit = (page - 1) * limit"

definition select_page :: "64 word \<Rightarrow> 64 word \<Rightarrow> URL list \<Rightarrow> URL list" where
  "select_page limit offset rows =
     (let sorted_rows = rev (sort_key CreatedAt rows);
          skipped = (if sint offset < 0 then sorted_rows else drop (nat (sint offset)) sorted_rows)
      in if sint limit < 0 then skipped else take (nat (sint limit)) skipped)"

definition db_ListURLs :: "64 word \<Rightarrow> 64 word \<Rightarrow> DB \<Rightarrow> (string + ListURLsResponse) \<times> DB" where
  "db_ListURLs page limit db =
     (let offset = ListURLs_offset page limit in
      case send SelectCount db of
        (Some err, db1) \<Rightarrow> (Inl (''failed to count URLs: '' @ err), db1)
      | (None, db1) \<Rightarrow>
          (let total = (of_nat (length (urls db1)) :: 64 word) in
           case send (SelectPage limit offset) db1 of
             (Some err, db2) \<Rightarrow> (Inl (''failed to list URLs: '' @ err), db2)
           | (None, db2) \<Rightarrow>
               (Inr \<lparr>URLs = select_page limit offset (urls db2), Total = total,
                     Page = page, Limit = limit\<rparr>, db2)))"

section \<open>Cache client (redis package)\<close>

text \<open>
  Redis is a map from keys to the JSON text stored under them. The client only ever stores
  \<^verbatim>\<open>json.Marshal\<close> of a \<^verbatim>\<open>*database.URL\<close>, so a stored text is \<open>Some u\<close> for a record or \<open>None\<close>
  for \<^verbatim>\<open>null\<close> (the encoding of a nil pointer); decoding \<^verbatim>\<open>null\<close> into a fresh struct leaves
  the zero record. Entries also leave the map when their time to live is over: that happens
  between calls, and is covered by stating properties for any contents of the map.
  As for the store, \<open>cache_errs\<close> holds the outcomes of the coming round trips and
  \<open>cache_log\<close> collects the commands sent.
\<close>

datatype cache_cmd = GET string | SET string "URL option" | DEL string

record Cache =
  kv :: "string \<rightharpoonup> URL option"
  cache_errs :: "string option list"
  cache_log :: "cache_cmd list"

definition redis :: "cache_cmd \<Rightarrow> Cache \<Rightarrow> string option \<times> Cache" where
  "redis cmd c =
     (case cache_errs c of
        [] \<Rightarrow> (None, c\<lparr>cache_log := cache_log c @ [cmd]\<rparr>)
      | e # es \<Rightarrow> (e, c\<lparr>cache_errs := es, cache_log := cache_log c @ [cmd]\<rparr>))"

definition cache_get :: "string \<Rightarrow> Cache \<Rightarrow> (string + URL option) \<times> Cache" where
  "cache_get key c =
     (case redis (GET key) c of
        (Some err, c') \<Rightarrow> (Inl (''failed to get from Redis: '' @ err), c')
      | (None, c') \<Rightarrow>
          (case kv c' key of
             None \<Rightarrow> (Inr None, c')
           | Some None \<Rightarrow> (Inr (Some zero_URL), c')
           | Some (Some url) \<Rightarrow> (Inr (Some url), c')))"

definition cache_set :: "string \<Rightarrow> URL option \<Rightarrow> Cache \<Rightarrow> string option \<times> Cache" where
  "cache_set key url c =
     (case redis (SET key url) c of
        (Some err, c') \<Rightarrow> (Some (''failed to set in Redis: '' @ err), c')
      | (None, c') \<Rightarrow> (None, c'\<lparr>kv := (kv c')(key \<mapsto> url)\<rparr>))"

definition cache_del :: "string \<Rightarrow> Cache \<Rightarrow> string option \<times> Cache" where
  "cache_del key c =
     (case redis (DEL key) c of
        (Some err, c') \<Rightarrow> (Some (''failed to delete from Redis: '' @ err), c')
      | (None, c') \<Rightarrow> (None, c'\<lparr>kv := (kv c')(key := None)\<rparr>))"

definition path_key :: "string \<Rightarrow> string" where
  "path_key shortPath = ''url:'' @ shortPath"

definition id_key :: "uuid \<Rightarrow> string" where
  "id_key uid = ''url_id:'' @ uid"

definition cache_GetURL :: "string \<Rightarrow> Cache \<Rightarrow> (string + URL option) \<times> Cache" where
  "cache_GetURL shortPath c = cache_get (path_key shortPath) c"

definition cache_SetURL :: "string \<Rightarrow> URL option \<Rightarrow> Cache \<Rightarrow> string option \<times> Cache" where
  "cache_SetURL shortPath url c = cache_set (path_key shortPath) url c"

definition cache_DeleteURL :: "string \<Rightarrow> Cache \<Rightarrow> string option \<times> Cache" where
  "cache_DeleteURL shortPath c = cache_del (path_key shortPath) c"

definition cache_GetURLByID :: "uuid \<Rightarrow> Cache \<Rightarrow> (string + URL option) \<times> Cache" where
  "cache_GetURLByID uid c = cache_get (id_key uid) c"

definition cache_SetURLByID :: "uuid \<Rightarrow> URL option \<Rightarrow> Cache \<Rightarrow> string option \<times> Cache" where
  "cache_SetURLByID uid url c = cache_set (id_key uid) url c"

definition cache_DeleteURLByID :: "uuid \<Rightarrow> Cache \<Rightarrow> string option \<times> Cache" where
  "cache_DeleteURLByID uid c = cache_del (id_key uid) c"

section \<open>Request handlers (handlers.go)\<close>

text \<open>
  What gin and the libraries hand to a handler is its input: the result of
  \<^verbatim>\<open>uuid.Parse(c.Param("id"))\<close> (\<open>None\<close>: not an identifier), the result of \<^verbatim>\<open>c.ShouldBindJSON\<close>
  (\<open>Inl\<close>: the binding error), the integers \<^verbatim>\<open>strconv.Atoi\<close> returned for the query
  parameters, the clock readings, and the template as a function from its data to the page
  or an error. A handler returns what it wrote to the client and the store and cache it
  leaves. \<open>NilDeref\<close> is the run-time panic on a field read through a nil pointer.
\<close>

datatype body = ErrorBody string | URLBody URL | ListBody ListURLsResponse

datatype reply = JSON nat body | HTML string | Status nat | NilDeref

fun status :: "reply \<Rightarrow> nat option" where
  "status (JSON code b) = Some code"
| "status (HTML page) = Some 200"
| "status (Status code) = Some code"
| "status NilDeref = None"

record TemplateData =
  td_Title :: "string option"
  td_Description :: "string option"
  td_ImageURL :: "string option"
  td_Destination :: string
  td_TwitterDomain :: string

definition Contains :: "string \<Rightarrow> string \<Rightarrow> bool" where
  "Contains s substr = sublist substr s"

text \<open>
  \<^verbatim>\<open>c.ShouldBindJSON(&req)\<close> for an \<^verbatim>\<open>UpdateURLRequest\<close>. The body is a JSON object; each member
  the struct names is absent, \<^verbatim>\<open>null\<close>, or a value of the member's type (a value of another
  type is a binding error, the \<open>Inl\<close> input of the handlers). \<^verbatim>\<open>encoding/json\<close> decodes into
  the zero struct: an absent member leaves the field nil; \<^verbatim>\<open>null\<close> sets the pointer the field
  holds to nil, which for \<^verbatim>\<open>ExpiresAt **time.Time\<close> is the outer pointer; a value allocates the
  pointers down to it.
\<close>

datatype 'a json_member = Absent | Null | Value 'a

record UpdateURLBody =
  j_short_path :: "string json_member"
  j_destination :: "string json_member"
  j_title :: "string json_member"
  j_description :: "string json_member"
  j_image_url :: "string json_member"
  j_expires_at :: "Time json_member"

definition decode_pointer :: "'a json_member \<Rightarrow> 'a option" where
  "decode_pointer m = (case m of Absent \<Rightarrow> None | Null \<Rightarrow> None | Value v \<Rightarrow> Some v)"

definition decode_pointer_to_pointer :: "'a json_member \<Rightarrow> 'a option option" where
  "decode_pointer_to_pointer m = (case m of Absent \<Rightarrow> None | Null \<Rightarrow> None | Value v \<Rightarrow> Some (Some v))"

definition bind_UpdateURLRequest :: "UpdateURLBody \<Rightarrow> UpdateURLRequest" where
  "bind_UpdateURLRequest body =
     \<lparr>up_ShortPath = decode_pointer (j_short_path body),
      up_Destination = decode_pointer (j_destination body),
      up_Title = decode_pointer (j_title body),
      up_Description = decode_pointer (j_description body),
      up_ImageURL = decode_pointer (j_image_url body),
      up_ExpiresAt = decode_pointer_to_pointer (j_expires_at body)\<rparr>"

text \<open>The check of a supplied short path that opens the create, update and patch handlers.\<close>

definition short_path_rejection :: "string option \<Rightarrow> reply option" where
  "short_path_rejection sp =
     (case sp of
        None \<Rightarrow> None
      | Some p \<Rightarrow>
          if p \<noteq> [] then
            (if \<not> isValidShortPath p then
               (if isReservedPath p
                then Some (JSON 400 (ErrorBody ''short path is reserved and cannot be used''))
                else Some (JSON 400 (ErrorBody ''invalid short path format'')))
             else None)
          else None)"

definition CreateURL ::
  "(string + CreateURLRequest) \<Rightarrow> time \<Rightarrow> (nat \<Rightarrow> nat) \<Rightarrow> uuid \<Rightarrow> DB \<Rightarrow> Cache \<Rightarrow> reply \<times> DB \<times> Cache"
where
  "CreateURL bound now rnd new_id db cache =
     (case bound of
        Inl err \<Rightarrow> (JSON 400 (ErrorBody err), db, cache)
      | Inr req \<Rightarrow>
          (case short_path_rejection (cr_ShortPath req) of
             Some rejection \<Rightarrow> (rejection, db, cache)
           | None \<Rightarrow>
               (case db_CreateURL now rnd new_id req db of
                  (Inl err, db1) \<Rightarrow>
                    if Contains err ''unique constraint''
                    then (JSON 409 (ErrorBody ''short path already exists''), db1, cache)
                    else (JSON 500 (ErrorBody ''failed to create URL''), db1, cache)
                | (Inr url, db1) \<Rightarrow>
                    (case cache_SetURL (ShortPath url) (Some url) cache of
                       (e1, c1) \<Rightarrow>
                         (case cache_SetURLByID (ID url) (Some url) c1 of
                            (e2, c2) \<Rightarrow> (JSON 201 (URLBody url), db1, c2))))))"

definition GetURL :: "uuid option \<Rightarrow> DB \<Rightarrow> Cache \<Rightarrow> reply \<times> DB \<times> Cache" where
  "GetURL parsed db cache =
     (case parsed of
        None \<Rightarrow> (JSON 400 (ErrorBody ''invalid URL ID''), db, cache)
      | Some uid \<Rightarrow>
          (case cache_GetURLByID uid cache of
             (got, c1) \<Rightarrow>
               (case (case got of Inl err \<Rightarrow> None | Inr cached \<Rightarrow> cached) of
                  Some url \<Rightarrow> (JSON 200 (URLBody url), db, c1)
                | None \<Rightarrow>
                    (case db_GetURLByID uid db of
                       (Inl err, db1) \<Rightarrow> (JSON 500 (ErrorBody ''failed to get URL''), db1, c1)
                     | (Inr None, db1) \<Rightarrow> (JSON 404 (ErrorBody ''URL not found''), db1, c1)
                     | (Inr (Some url), db1) \<Rightarrow>
                         (case cache_SetURLByID uid (Some url) c1 of
                            (e1, c2) \<Rightarrow>
                              (case cache_SetURL (ShortPath url) (Some url) c2 of
                                 (e2, c3) \<Rightarrow> (JSON 200 (URLBody url), db1, c3)))))))"

definition ListURLs :: "64 word \<Rightarrow> 64 word \<Rightarrow> DB \<Rightarrow> Cache \<Rightarrow> reply \<times> DB \<times> Cache" where
  "ListURLs page0 limit0 db cache =
     (let page = (if sint page0 < 1 then 1 else page0);
          limit = (if sint limit0 < 1 \<or> sint limit0 > 100 then 10 else limit0)
      in case db_ListURLs page limit db of
           (Inl err, db1) \<Rightarrow> (JSON 500 (ErrorBody ''failed to list URLs''), db1, cache)
         | (Inr result, db1) \<Rightarrow> (JSON 200 (ListBody result), db1, cache))"

definition UpdateURL ::
  "uuid option \<Rightarrow> (string + UpdateURLRequest) \<Rightarrow> time \<Rightarrow> DB \<Rightarrow> Cache \<Rightarrow> reply \<times> DB \<times> Cache"
where
  "UpdateURL parsed bound now db cache =
     (case parsed of
        None \<Rightarrow> (JSON 400 (ErrorBody ''invalid URL ID''), db, cache)
      | Some uid \<Rightarrow>
          (case bound of
             Inl err \<Rightarrow> (JSON 400 (ErrorBody err), db, cache)
           | Inr req \<Rightarrow>
               (case short_path_rejection (up_ShortPath req) of
                  Some rejection \<Rightarrow> (rejection, db, cache)
                | None \<Rightarrow>
                    (case db_UpdateURL now uid req db of
                       (Inl err, db1) \<Rightarrow> (JSON 500 (ErrorBody ''failed to update URL''), db1, cache)
                     | (Inr None, db1) \<Rightarrow> (JSON 404 (ErrorBody ''URL not found''), db1, cache)
                     | (Inr (Some url), db1) \<Rightarrow>
                         (case cache_SetURLByID uid (Some url) cache of
                            (e1, c1) \<Rightarrow>
                              (case cache_SetURL (ShortPath url) (Some url) c1 of
                                 (e2, c2) \<Rightarrow> (JSON 200 (URLBody url), db1, c2)))))))"

text \<open>
  \<^verbatim>\<open>PatchURL\<close> has no test for a nil record after the store call: it passes the pointer to
  \<^verbatim>\<open>SetURLByID\<close>, which encodes it, and then reads \<^verbatim>\<open>url.ShortPath\<close>.
\<close>

definition PatchURL ::
  "uuid option \<Rightarrow> (string + UpdateURLRequest) \<Rightarrow> time \<Rightarrow> DB \<Rightarrow> Cache \<Rightarrow> reply \<times> DB \<times> Cache"
where
  "PatchURL parsed bound now db cache =
     (case parsed of
        None \<Rightarrow> (JSON 400 (ErrorBody ''invalid URL ID''), db, cache)
      | Some uid \<Rightarrow>
          (case bound of
             Inl err \<Rightarrow> (JSON 400 (ErrorBody err), db, cache)
           | Inr req \<Rightarrow>
               (case short_path_rejection (up_ShortPath req) of
                  Some rejection \<Rightarrow> (rejection, db, cache)
                | None \<Rightarrow>
                    (case db_UpdateURL now uid req db of
                       (Inl err, db1) \<Rightarrow>
                         if Contains err ''not found''
                         then (JSON 404 (ErrorBody ''URL not found''), db1, cache)
                         else if Contains err ''unique constraint''
                         then (JSON 409 (ErrorBody ''short path already exists''), db1, cache)
                         else (JSON 500 (ErrorBody ''failed to update URL''), db1, cache)
                     | (Inr url, db1) \<Rightarrow>
                         (case cache_SetURLByID uid url cache of
                            (e1, c1) \<Rightarrow>
                              (case url of
                                 None \<Rightarrow> (NilDeref, db1, c1)
                               | Some u \<Rightarrow>
                                   (case cache_SetURL (ShortPath u) (Some u) c1 of
                                      (e2, c2) \<Rightarrow> (JSON 200 (URLBody u), db1, c2))))))))"

definition DeleteURL :: "uuid option \<Rightarrow> DB \<Rightarrow> Cache \<Rightarrow> reply \<times> DB \<times> Cache" where
  "DeleteURL parsed db cache =
     (case parsed of
        None \<Rightarrow> (JSON 400 (ErrorBody ''invalid URL ID''), db, cache)
      | Some uid \<Rightarrow>
          (case db_GetURLByID uid db of
             (Inl err, db1) \<Rightarrow> (JSON 500 (ErrorBody ''failed to get URL''), db1, cache)
           | (Inr None, db1) \<Rightarrow> (JSON 404 (ErrorBody ''URL not found''), db1, cache)
           | (Inr (Some url), db1) \<Rightarrow>
               (case db_DeleteURL uid db1 of
                  (Some err, db2) \<Rightarrow> (JSON 500 (ErrorBody ''failed to delete URL''), db2, cache)
                | (None, db2) \<Rightarrow>
                    (case cache_DeleteURLByID uid cache of
                       (e1, c1) \<Rightarrow>
                         (case cache_DeleteURL (ShortPath url) c1 of
                            (e2, c2) \<Rightarrow> (Status 204, db2, c2))))))"

text \<open>
  \<^verbatim>\<open>Redirect\<close>: \<open>now_db\<close> is the instant at which the store runs the lookup, \<open>now\<close> the later
  reading of \<^verbatim>\<open>time.Now()\<close> in the handler.
\<close>

definition expired :: "time \<Rightarrow> URL \<Rightarrow> bool" where
  "expired now url = (case ExpiresAt url of None \<Rightarrow> False | Some t \<Rightarrow> instant t < now)"

definition Redirect ::
  "(TemplateData \<Rightarrow> string + string) \<Rightarrow> string \<Rightarrow> time \<Rightarrow> time \<Rightarrow> string \<Rightarrow> DB \<Rightarrow> Cache \<Rightarrow> reply \<times> DB \<times> Cache"
where
  "Redirect tmpl twitterDomain now_db now shortPath db cache =
     (if shortPath = [] then (JSON 404 (ErrorBody ''URL not found''), db, cache)
      else
        (case cache_GetURL shortPath cache of
           (got, c1) \<Rightarrow>
             (case (case (case got of Inl err \<Rightarrow> None | Inr cached \<Rightarrow> cached) of
                      Some url \<Rightarrow> (Inr url, db, c1)
                    | None \<Rightarrow>
                        (case db_GetURLByShortPath now_db shortPath db of
                           (Inl err, db1) \<Rightarrow> (Inl (JSON 500 (ErrorBody ''failed to get URL'')), db1, c1)
                         | (Inr None, db1) \<Rightarrow>
                             (Inl (JSON 404 (ErrorBody ''URL not found or expired'')), db1, c1)
                         | (Inr (Some url), db1) \<Rightarrow>
                             (case cache_SetURL shortPath (Some url) c1 of
                                (e1, c2) \<Rightarrow> (Inr url, db1, c2)))) of
                (Inl early, db1, c2) \<Rightarrow> (early, db1, c2)
              | (Inr url, db1, c2) \<Rightarrow>
                  if expired now url then (JSON 404 (ErrorBody ''URL has expired''), db1, c2)
                  else
                    (case tmpl \<lparr>td_Title = Title url, td_Description = Description url,
                                 td_ImageURL = ImageURL url, td_Destination = Destination url,
                                 td_TwitterDomain = twitterDomain\<rparr> of
                       Inl err \<Rightarrow> (JSON 500 (ErrorBody ''failed to render template''), db1, c2)
                     | Inr page \<Rightarrow> (HTML page, db1, c2)))))"

section \<open>Vocabulary of the properties\<close>

text \<open>
  \<open>goes_through errs\<close>: the next round trip does not fail. \<open>table_ok rows\<close>: the rows respect
  the primary key and the unique index, as every table the store produces does.
\<close>

definition goes_through :: "string option list \<Rightarrow> bool" where
  "goes_through errs = (case errs of [] \<Rightarrow> True | e # es \<Rightarrow> e = None)"

definition table_ok :: "URL list \<Rightarrow> bool" where
  "table_ok rows \<longleftrightarrow> distinct (map ID rows) \<and> distinct (map ShortPath rows)"

text \<open>Sample data for the closed statements below.\<close>

definition ex_url1 :: URL where
  "ex_url1 = \<lparr>ID = ''550e8400-e29b-41d4-a716-446655440000'', ShortPath = ''abc123'',
     Destination = ''https://example.com'', Title = Some ''My Website'', Description = None,
     ImageURL = None, ExpiresAt = None, CreatedAt = 100, UpdatedAt = 100\<rparr>"

definition ex_url2 :: URL where
  "ex_url2 = \<lparr>ID = ''6ba7b810-9dad-11d1-80b4-00c04fd430c8'', ShortPath = ''promo-2024'',
     Destination = ''https://example.com/promo'', Title = None, Description = Some ''A great website'',
     ImageURL = None, ExpiresAt = Some \<lparr>instant = 1000, zone = 0\<rparr>, CreatedAt = 200, UpdatedAt = 200\<rparr>"

definition ex_db :: DB where
  "ex_db = \<lparr>urls = [ex_url1, ex_url2], db_errs = [],
     unique_msg = ''UNIQUE constraint failed: urls.short_path'',
     pkey_msg = ''UNIQUE constraint failed: urls.id'',
     db_log = []\<rparr>"

definition ex_cache :: Cache where
  "ex_cache = \<lparr>kv = Map.empty, cache_errs = [], cache_log = []\<rparr>"

definition ex_req_title :: UpdateURLRequest where
  "ex_req_title = \<lparr>up_ShortPath = None, up_Destination = None, up_Title = Some ''Updated Title'',
     up_Description = None, up_ImageURL = None, up_ExpiresAt = None\<rparr>"

definition ex_rnd :: "nat \<Rightarrow> nat" where
  "ex_rnd k = 7 * k"

definition ex_new_id :: uuid where
  "ex_new_id = ''123e4567-e89b-12d3-a456-426614174000''"

definition ex_create :: "string option \<Rightarrow> CreateURLRequest" where
  "ex_create sp = \<lparr>cr_ShortPath = sp, cr_Destination = ''https://example.org'', cr_Title = None,
     cr_Description = None, cr_ImageURL = None, cr_ExpiresAt = None\<rparr>"

definition ex_tmpl :: "TemplateData \<Rightarrow> string + string" where
  "ex_tmpl d = Inr (''<meta http-equiv=refresh content=0;url='' @ td_Destination d @ ''>'')"

definition ex_cache_warm :: Cache where
  "ex_cache_warm = \<lparr>kv = [''url:promo-2024'' \<mapsto> Some ex_url2], cache_errs = [], cache_log = []\<rparr>"

text \<open>
  The body \<^verbatim>\<open>{"expires_at": null}\<close>; a create request whose \<^verbatim>\<open>expires_at\<close> is
  \<^verbatim>\<open>2024-06-01T20:00:00+08:00\<close>, which is 12:00:00 UTC of that day; and the record it gives
  when the store's clock reads 10:00:00 UTC.
\<close>

definition ex_body_null :: UpdateURLBody where
  "ex_body_null = \<lparr>j_short_path = Absent, j_destination = Absent, j_title = Absent,
     j_description = Absent, j_image_url = Absent, j_expires_at = Null\<rparr>"

definition ex_create_sale :: CreateURLRequest where
  "ex_create_sale = \<lparr>cr_ShortPath = Some ''summer-sale'', cr_Destination = ''https://example.org/sale'',
     cr_Title = None, cr_Description = None, cr_ImageURL = None,
     cr_ExpiresAt = Some \<lparr>instant = 1717243200000000000, zone = 28800\<rparr>\<rparr>"

definition ex_url_sale :: URL where
  "ex_url_sale = \<lparr>ID = ''123e4567-e89b-12d3-a456-426614174000'', ShortPath = ''summer-sale'',
     Destination = ''https://example.org/sale'', Title = None, Description = None, ImageURL = None,
     ExpiresAt = Some \<lparr>instant = 1717243200000000000, zone = 28800\<rparr>,
     CreatedAt = 1717236000000000000, UpdatedAt = 1717236000000000000\<rparr>"

section \<open>Properties of the uniqueness resolver\<close>

lemma length_generateRandomString: "length (generateRandomString rnd pos len) = len"
  by (simp add: generateRandomString_def)

lemma sim_postI:
  assumes "\<forall>i<length asked'. length (asked' ! i) = minLength + i"
    and "\<And>n. a \<le> n \<Longrightarrow> n < maxAttempts \<Longrightarrow> (\<forall>i. a \<le> i \<and> i < n \<longrightarrow> ans i = Inr True) \<Longrightarrow> ans n = Inr False
           \<Longrightarrow> res = Inr (asked' ! n) \<and> length asked' = n + 1"
    and "\<And>n e. a \<le> n \<Longrightarrow> n < maxAttempts \<Longrightarrow> (\<forall>i. a \<le> i \<and> i < n \<longrightarrow> ans i = Inr True) \<Longrightarrow> ans n = Inl e
           \<Longrightarrow> res = Inl e \<and> length asked' = n + 1"
    and "(\<forall>i. a \<le> i \<and> i < maxAttempts \<longrightarrow> ans i = Inr True) \<Longrightarrow> res = Inl exhausted_msg \<and> length asked' = maxAttempts"
  shows "sim_post ans a (res, asked')"
  unfolding sim_post_def prod.case using assms by blast

lemma resolver_loop_sim_step:
  "a < maxAttempts \<Longrightarrow> length asked = a \<Longrightarrow>
   resolver_loop (sim_exists ans) rnd pos a asked =
     (let c = generateRandomString rnd pos (minLength + a) in
      case ans a of
        Inl e \<Rightarrow> (Inl e, asked @ [c])
      | Inr b \<Rightarrow> if \<not> b then (Inr c, asked @ [c])
                 else resolver_loop (sim_exists ans) rnd (pos + (minLength + a)) (a + 1) (asked @ [c]))"
  by (subst resolver_loop.simps) (simp add: sim_exists_def Let_def split: sum.splits)

lemma sim_post_stop:
  assumes len: "length asked = a" and lt: "a < maxAttempts" and stop: "ans a \<noteq> Inr True"
    and inv: "\<forall>i<length (asked @ [c]). length ((asked @ [c]) ! i) = minLength + i"
    and res: "res = (case ans a of Inl e \<Rightarrow> Inl e | Inr b \<Rightarrow> Inr c)"
  shows "sim_post ans a (res, asked @ [c])"
proof (rule sim_postI)
  have eq: "n = a" if "a \<le> n" "\<forall>i. a \<le> i \<and> i < n \<longrightarrow> ans i = Inr True" for n
    using that stop by (cases "a < n") auto
  show "\<forall>i<length (asked @ [c]). length ((asked @ [c]) ! i) = minLength + i"
    by (rule inv)
  show "res = Inr ((asked @ [c]) ! n) \<and> length (asked @ [c]) = n + 1"
    if "a \<le> n" "\<forall>i. a \<le> i \<and> i < n \<longrightarrow> ans i = Inr True" "ans n = Inr False" for n
    using eq[OF that(1,2)] that(3) len res by auto
  show "res = Inl e \<and> length (asked @ [c]) = n + 1"
    if "a \<le> n" "\<forall>i. a \<le> i \<and> i < n \<longrightarrow> ans i = Inr True" "ans n = Inl e" for n e
    using eq[OF that(1,2)] that(3) len res by auto
  show "res = Inl exhausted_msg \<and> length (asked @ [c]) = maxAttempts"
    if "\<forall>i. a \<le> i \<and> i < maxAttempts \<longrightarrow> ans i = Inr True"
    using that lt stop by auto
qed

lemma sim_post_continue:
  assumes coll: "ans a = Inr True" and post: "sim_post ans (a + 1) r"
  shows "sim_post ans a r"
proof -
  obtain res asked' where r: "r = (res, asked')" by (cases r)
  have shift: "a + 1 \<le> n \<and> (\<forall>i. a + 1 \<le> i \<and> i < n \<longrightarrow> ans i = Inr True)"
    if "a \<le> n" "\<forall>i. a \<le> i \<and> i < n \<longrightarrow> ans i = Inr True" "ans n \<noteq> Inr True" for n
    using that coll by (cases "n = a") auto
  show ?thesis
    unfolding r
  proof (rule sim_postI)
    show "\<forall>i<length asked'. length (asked' ! i) = minLength + i"
      using post by (simp add: sim_post_def r)
    show "res = Inr (asked' ! n) \<and> length asked' = n + 1"
      if "a \<le> n" "n < maxAttempts" "\<forall>i. a \<le> i \<and> i < n \<longrightarrow> ans i = Inr True" "ans n = Inr False" for n
      using shift[of n] that post unfolding sim_post_def r prod.case by (metis sum.inject(2))
    show "res = Inl e \<and> length asked' = n + 1"
      if "a \<le> n" "n < maxAttempts" "\<forall>i. a \<le> i \<and> i < n \<longrightarrow> ans i = Inr True" "ans n = Inl e" for n e
      using shift[of n] that post unfolding sim_post_def r prod.case by (metis sum.distinct(1))
    show "res = Inl exhausted_msg \<and> length asked' = maxAttempts"
      if "\<forall>i. a \<le> i \<and> i < maxAttempts \<longrightarrow> ans i = Inr True"
      using that post unfolding sim_post_def r prod.case by simp
  qed
qed

lemma resolver_loop_sim:
  assumes "k = maxAttempts - a" "length asked = a" "a \<le> maxAttempts"
    and "\<forall>i<length asked. length (asked ! i) = minLength + i"
  shows "sim_post ans a (resolver_loop (sim_exists ans) rnd pos a asked)"
  using assms
proof (induction k arbitrary: a asked pos)
  case 0
  then have "a = maxAttempts" by simp
  then have "resolver_loop (sim_exists ans) rnd pos a asked = (Inl exhausted_msg, asked)"
    by (subst resolver_loop.simps) (simp add: exhausted_msg_def)
  with 0 show ?case by (auto simp: sim_post_def)
next
  case (Suc k)
  then have lt: "a < maxAttempts" by simp
  let ?c = "generateRandomString rnd pos (minLength + a)"
  let ?asked = "asked @ [?c]"
  have inv: "\<forall>i<length ?asked. length (?asked ! i) = minLength + i"
    using Suc.prems by (auto simp: nth_append length_generateRandomString)
  have IH: "sim_post ans (a + 1) (resolver_loop (sim_exists ans) rnd (pos + (minLength + a)) (a + 1) ?asked)"
    by (rule Suc.IH) (use Suc.prems lt inv in auto)
  show ?case
  proof (cases "ans a = Inr True")
    case True
    then show ?thesis
      using sim_post_continue[OF True IH] lt Suc.prems(2)
      by (simp add: resolver_loop_sim_step Let_def)
  next
    case False
    have "resolver_loop (sim_exists ans) rnd pos a asked = ((case ans a of Inl e \<Rightarrow> Inl e | Inr b \<Rightarrow> Inr ?c), ?asked)"
      using False lt Suc.prems(2) by (auto simp: resolver_loop_sim_step Let_def split: sum.splits)
    then show ?thesis
      using sim_post_stop[where c = ?c and asked = asked and ans = ans and a = a, OF Suc.prems(2) lt False inv] by simp
  qed
qed


text \<open>
  Claim C1. Against any sequence of answers of the store, the \<open>i\<close>-th candidate the resolver
  asks about (counting from 0) has length \<open>6 + i\<close>, so no length is tried twice. If the
  first \<open>n\<close> answers are collisions and answer \<open>n\<close> (with \<open>n < 10\<close>) is "absent", the resolver
  returns candidate \<open>n\<close> after \<open>n + 1\<close> checks; if answer \<open>n\<close> is an error instead, it returns
  that error after \<open>n + 1\<close> checks. If all ten answers are collisions it fails with the
  exhaustion error after exactly ten checks, the last candidate having length 15.
\<close>

theorem resolver_attempts:
  "(\<forall>i < length (snd (sim_run ans rnd)). length (snd (sim_run ans rnd) ! i) = 6 + i) \<and>
   distinct (map length (snd (sim_run ans rnd))) \<and>
   (\<forall>n<10. (\<forall>i<n. ans i = Inr True) \<and> ans n = Inr False \<longrightarrow>
       fst (sim_run ans rnd) = Inr (snd (sim_run ans rnd) ! n) \<and> length (snd (sim_run ans rnd)) = n + 1) \<and>
   (\<forall>n<10. \<forall>e. (\<forall>i<n. ans i = Inr True) \<and> ans n = Inl e \<longrightarrow>
       fst (sim_run ans rnd) = Inl e \<and> length (snd (sim_run ans rnd)) = n + 1) \<and>
   ((\<forall>i<10. ans i = Inr True) \<longrightarrow>
       fst (sim_run ans rnd) = Inl ''failed to generate unique short path after 10 attempts'' \<and>
       length (snd (sim_run ans rnd)) = 10 \<and> length (last (snd (sim_run ans rnd))) = 15)"
proof -
  obtain res asked' where run: "sim_run ans rnd = (res, asked')" by (cases "sim_run ans rnd")
  have "sim_post ans 0 (resolver_loop (sim_exists ans) rnd 0 0 [])"
    by (rule resolver_loop_sim[where k = maxAttempts]) simp_all
  then have post: "sim_post ans 0 (res, asked')"
    using run by (simp add: sim_run_def resolve_with_def)
  have lens: "\<forall>i<length asked'. length (asked' ! i) = 6 + i"
    using post by (simp add: sim_post_def minLength_def)
  have "map length asked' = map (\<lambda>i. 6 + i) [0..<length asked']"
    using lens by (intro nth_equalityI) auto
  then have dist: "distinct (map length asked')"
    by (simp add: distinct_map inj_on_def)
  have stop: "res = Inr (asked' ! n) \<and> length asked' = n + 1"
    if "n < 10" "\<forall>i<n. ans i = Inr True" "ans n = Inr False" for n
    using post that unfolding sim_post_def prod.case maxAttempts_def by simp
  have err: "res = Inl e \<and> length asked' = n + 1"
    if "n < 10" "\<forall>i<n. ans i = Inr True" "ans n = Inl e" for n e
    using post that unfolding sim_post_def prod.case maxAttempts_def by simp
  have exh: "res = Inl exhausted_msg \<and> length asked' = 10 \<and> length (last asked') = 15"
    if "\<forall>i<10. ans i = Inr True"
  proof -
    have a: "res = Inl exhausted_msg \<and> length asked' = 10"
      using post that unfolding sim_post_def prod.case maxAttempts_def by simp
    then have "asked' \<noteq> []" by auto
    then have "last asked' = asked' ! 9" using a by (simp add: last_conv_nth)
    with lens a show ?thesis by simp
  qed
  show ?thesis
    unfolding run fst_conv snd_conv using lens dist stop err exh
    by (simp add: exhausted_msg_def)
qed

theorem resolver_attempts_witness:
  "fst (sim_run (\<lambda>i. if i < 2 then Inr True else Inr False) (\<lambda>k. 7 * k)) =
     Inr (snd (sim_run (\<lambda>i. if i < 2 then Inr True else Inr False) (\<lambda>k. 7 * k)) ! 2) \<and>
   length (snd (sim_run (\<lambda>i. if i < 2 then Inr True else Inr False) (\<lambda>k. 7 * k))) = 3 \<and>
   fst (sim_run (\<lambda>i. if i < 1 then Inr True else Inl ''connection refused'') (\<lambda>k. k)) =
     Inl ''connection refused'' \<and>
   fst (sim_run (\<lambda>i. Inr True) (\<lambda>k. k)) = Inl ''failed to generate unique short path after 10 attempts'' \<and>
   length (snd (sim_run (\<lambda>i. Inr True) (\<lambda>k. k))) = 10 \<and>
   length (last (snd (sim_run (\<lambda>i. Inr True) (\<lambda>k. k)))) = 15"
proof -
  have stop: "\<forall>n<10. (\<forall>i<n. (if i < (2::nat) then Inr True else Inr False) = (Inr True :: string + bool)) \<and>
      (if n < 2 then Inr True else Inr False) = (Inr False :: string + bool) \<longrightarrow>
      fst (sim_run (\<lambda>i. if i < 2 then Inr True else Inr False) (\<lambda>k. 7 * k)) =
        Inr (snd (sim_run (\<lambda>i. if i < 2 then Inr True else Inr False) (\<lambda>k. 7 * k)) ! n) \<and>
      length (snd (sim_run (\<lambda>i. if i < 2 then Inr True else Inr False) (\<lambda>k. 7 * k))) = n + 1"
    using resolver_attempts [of "\<lambda>i. if i < 2 then Inr True else Inr False" "\<lambda>k. 7 * k"] by blast
  have err: "\<forall>n<10. \<forall>e. (\<forall>i<n. (if i < (1::nat) then Inr True else Inl ''connection refused'') = (Inr True :: string + bool)) \<and>
      (if n < 1 then Inr True else Inl ''connection refused'') = (Inl e :: string + bool) \<longrightarrow>
      fst (sim_run (\<lambda>i. if i < 1 then Inr True else Inl ''connection refused'') (\<lambda>k. k)) = Inl e"
    using resolver_attempts [of "\<lambda>i. if i < 1 then Inr True else Inl ''connection refused''" "\<lambda>k. k"] by blast
  have exh: "fst (sim_run (\<lambda>i. Inr True) (\<lambda>k. k)) = Inl ''failed to generate unique short path after 10 attempts'' \<and>
      length (snd (sim_run (\<lambda>i. Inr True) (\<lambda>k. k))) = 10 \<and>
      length (last (snd (sim_run (\<lambda>i. Inr True) (\<lambda>k. k)))) = 15"
    using resolver_attempts [of "\<lambda>i. Inr True" "\<lambda>k. k"] by simp
  from stop [rule_format, of 2] err [rule_format, of 1 "''connection refused''"] exh
  show ?thesis by simp
qed

section \<open>Properties of the record store\<close>

lemma send_goes_through:
  "goes_through (db_errs db) \<Longrightarrow>
     fst (send stmt db) = None \<and> urls (snd (send stmt db)) = urls db \<and>
     db_log (snd (send stmt db)) = db_log db @ [stmt] \<and>
     unique_msg (snd (send stmt db)) = unique_msg db \<and> pkey_msg (snd (send stmt db)) = pkey_msg db"
  by (auto simp: send_def goes_through_def split: list.splits)

lemma send_keeps:
  "urls (snd (send stmt db)) = urls db" "db_log (snd (send stmt db)) = db_log db @ [stmt]"
  "unique_msg (snd (send stmt db)) = unique_msg db" "pkey_msg (snd (send stmt db)) = pkey_msg db"
  by (auto simp: send_def split: list.splits)

lemma find_map_same_id:
  assumes "\<And>r. ID (f r) = ID r"
  shows "find (\<lambda>r. ID r = uid) (map (\<lambda>r. if ID r = uid then f r else r) rows) =
         map_option f (find (\<lambda>r. ID r = uid) rows)"
  using assms by (induction rows) auto

lemma filter_map_other_ids:
  assumes "\<And>r. ID (f r) = ID r"
  shows "filter (\<lambda>r. ID r \<noteq> uid) (map (\<lambda>r. if ID r = uid then f r else r) rows) =
         filter (\<lambda>r. ID r \<noteq> uid) rows"
  using assms by (induction rows) auto

lemma ID_set_clauses: "ID (set_clauses now req r) = ID r"
  by (simp add: set_clauses_def Let_def split: option.splits)

lemma set_clauses_fields:
  "CreatedAt (set_clauses now req r) = CreatedAt r"
  "UpdatedAt (set_clauses now req r) = now"
  "ShortPath (set_clauses now req r) = (case up_ShortPath req of None \<Rightarrow> ShortPath r | Some v \<Rightarrow> v)"
  "Destination (set_clauses now req r) = (case up_Destination req of None \<Rightarrow> Destination r | Some v \<Rightarrow> v)"
  "Title (set_clauses now req r) = (case up_Title req of None \<Rightarrow> Title r | Some v \<Rightarrow> Some v)"
  "Description (set_clauses now req r) = (case up_Description req of None \<Rightarrow> Description r | Some v \<Rightarrow> Some v)"
  "ImageURL (set_clauses now req r) = (case up_ImageURL req of None \<Rightarrow> ImageURL r | Some v \<Rightarrow> Some v)"
  "ExpiresAt (set_clauses now req r) =
     (case up_ExpiresAt req of None \<Rightarrow> ExpiresAt r | Some None \<Rightarrow> None | Some (Some t) \<Rightarrow> Some t)"
  by (simp_all add: set_clauses_def Let_def split: option.splits)

lemma db_UpdateURL_conflict:
  assumes "goes_through (db_errs db)" and "find (\<lambda>r. ID r = uid) (urls db) = Some r"
    and "\<exists>r2 \<in> set (urls db). ID r2 \<noteq> uid \<and> ShortPath r2 = ShortPath (set_clauses now req r)"
  shows "fst (db_UpdateURL now uid req db) = Inl (''failed to update URL: '' @ unique_msg db) \<and>
         urls (snd (db_UpdateURL now uid req db)) = urls db"
proof -
  obtain db1 where s: "send (Update uid req) db = (None, db1)" and u: "urls db1 = urls db"
    and m: "unique_msg db1 = unique_msg db"
    using send_goes_through[OF assms(1), of "Update uid req"] by (cases "send (Update uid req) db") auto
  show ?thesis
    using assms(2,3) by (simp add: db_UpdateURL_def s u m)
qed

lemma db_UpdateURL_unknown_id:
  assumes "goes_through (db_errs db)" and "find (\<lambda>r. ID r = uid) (urls db) = None"
  shows "db_UpdateURL now uid req db = (Inr None, snd (send (Update uid req) db))"
  using assms send_goes_through[OF assms(1), of "Update uid req"]
  by (cases "send (Update uid req) db") (simp add: db_UpdateURL_def)

lemma db_UpdateURL_round_trip_fails:
  assumes "\<not> goes_through (db_errs db)"
  shows "(\<exists>e. fst (db_UpdateURL now uid req db) = Inl e) \<and>
         urls (snd (db_UpdateURL now uid req db)) = urls db"
proof -
  obtain err rest where "db_errs db = Some err # rest"
    using assms by (cases "db_errs db") (auto simp: goes_through_def)
  then show ?thesis
    by (simp add: db_UpdateURL_def send_def)
qed

text \<open>
  What the store's \<^verbatim>\<open>UpdateURL\<close> does with a request struct. An update of a stored record
  either is accepted by the store (the round trip goes through and the new short path
  collides with no other row) or fails and leaves the table as it was. When it is accepted,
  the record returned and stored has the requested value in every field that is not nil in
  the struct and the stored value in every field that is nil; \<open>id\<close> and \<open>created_at\<close> are
  kept, \<open>updated_at\<close> is the store's clock reading, and no other row changes. For
  \<^verbatim>\<open>ExpiresAt\<close>: nil keeps the stored value, a pointer to nil clears it, a pointer to an instant
  replaces it.
\<close>

lemma db_UpdateURL_merges_fields:
  assumes "find (\<lambda>r. ID r = uid) (urls db) = Some r"
  shows "(goes_through (db_errs db) \<and>
          (\<forall>r2 \<in> set (urls db). ID r2 \<noteq> uid \<longrightarrow>
             ShortPath r2 \<noteq> (case up_ShortPath req of None \<Rightarrow> ShortPath r | Some v \<Rightarrow> v)) \<longrightarrow>
     (\<exists>url' db'. db_UpdateURL now uid req db = (Inr (Some url'), db') \<and>
        find (\<lambda>r. ID r = uid) (urls db') = Some url' \<and>
        filter (\<lambda>r. ID r \<noteq> uid) (urls db') = filter (\<lambda>r. ID r \<noteq> uid) (urls db) \<and>
        ID url' = ID r \<and> CreatedAt url' = CreatedAt r \<and> UpdatedAt url' = now \<and>
        ShortPath url' = (case up_ShortPath req of None \<Rightarrow> ShortPath r | Some v \<Rightarrow> v) \<and>
        Destination url' = (case up_Destination req of None \<Rightarrow> Destination r | Some v \<Rightarrow> v) \<and>
        Title url' = (case up_Title req of None \<Rightarrow> Title r | Some v \<Rightarrow> Some v) \<and>
        Description url' = (case up_Description req of None \<Rightarrow> Description r | Some v \<Rightarrow> Some v) \<and>
        ImageURL url' = (case up_ImageURL req of None \<Rightarrow> ImageURL r | Some v \<Rightarrow> Some v) \<and>
        ExpiresAt url' =
          (case up_ExpiresAt req of None \<Rightarrow> ExpiresAt r | Some None \<Rightarrow> None | Some (Some t) \<Rightarrow> Some t))) \<and>
   (\<not> goes_through (db_errs db) \<or>
    (\<exists>r2 \<in> set (urls db). ID r2 \<noteq> uid \<and>
       ShortPath r2 = (case up_ShortPath req of None \<Rightarrow> ShortPath r | Some v \<Rightarrow> v)) \<longrightarrow>
     (\<exists>e. fst (db_UpdateURL now uid req db) = Inl e) \<and>
     urls (snd (db_UpdateURL now uid req db)) = urls db)"
proof (intro conjI impI)
  assume ok: "goes_through (db_errs db) \<and>
      (\<forall>r2 \<in> set (urls db). ID r2 \<noteq> uid \<longrightarrow>
         ShortPath r2 \<noteq> (case up_ShortPath req of None \<Rightarrow> ShortPath r | Some v \<Rightarrow> v))"
  obtain db1 where s: "send (Update uid req) db = (None, db1)" and u: "urls db1 = urls db"
    using send_goes_through[of db "Update uid req"] ok by (cases "send (Update uid req) db") auto
  let ?url = "set_clauses now req r"
  let ?db = "db1\<lparr>urls := map (\<lambda>r. if ID r = uid then set_clauses now req r else r) (urls db1)\<rparr>"
  have free: "\<not> (\<exists>r2 \<in> set (urls db1). ID r2 \<noteq> uid \<and> ShortPath r2 = ShortPath ?url)"
    using ok by (auto simp: u set_clauses_fields)
  have run: "db_UpdateURL now uid req db = (Inr (Some ?url), ?db)"
    unfolding db_UpdateURL_def s using assms free by (simp add: u)
  have stored: "find (\<lambda>r. ID r = uid) (urls ?db) = Some ?url"
    using assms by (simp add: u find_map_same_id[of "set_clauses now req", OF ID_set_clauses])
  have others: "filter (\<lambda>r. ID r \<noteq> uid) (urls ?db) = filter (\<lambda>r. ID r \<noteq> uid) (urls db)"
    by (simp add: u filter_map_other_ids[of "set_clauses now req", OF ID_set_clauses])
  show "\<exists>url' db'. db_UpdateURL now uid req db = (Inr (Some url'), db') \<and>
        find (\<lambda>r. ID r = uid) (urls db') = Some url' \<and>
        filter (\<lambda>r. ID r \<noteq> uid) (urls db') = filter (\<lambda>r. ID r \<noteq> uid) (urls db) \<and>
        ID url' = ID r \<and> CreatedAt url' = CreatedAt r \<and> UpdatedAt url' = now \<and>
        ShortPath url' = (case up_ShortPath req of None \<Rightarrow> ShortPath r | Some v \<Rightarrow> v) \<and>
        Destination url' = (case up_Destination req of None \<Rightarrow> Destination r | Some v \<Rightarrow> v) \<and>
        Title url' = (case up_Title req of None \<Rightarrow> Title r | Some v \<Rightarrow> Some v) \<and>
        Description url' = (case up_Description req of None \<Rightarrow> Description r | Some v \<Rightarrow> Some v) \<and>
        ImageURL url' = (case up_ImageURL req of None \<Rightarrow> ImageURL r | Some v \<Rightarrow> Some v) \<and>
        ExpiresAt url' =
          (case up_ExpiresAt req of None \<Rightarrow> ExpiresAt r | Some None \<Rightarrow> None | Some (Some t) \<Rightarrow> Some t)"
    using run stored others by (simp add: set_clauses_fields ID_set_clauses)
next
  assume bad: "\<not> goes_through (db_errs db) \<or>
      (\<exists>r2 \<in> set (urls db). ID r2 \<noteq> uid \<and>
         ShortPath r2 = (case up_ShortPath req of None \<Rightarrow> ShortPath r | Some v \<Rightarrow> v))"
  have both: "(\<exists>e. fst (db_UpdateURL now uid req db) = Inl e) \<and>
      urls (snd (db_UpdateURL now uid req db)) = urls db"
  proof (cases "goes_through (db_errs db)")
    case False
    then show ?thesis by (rule db_UpdateURL_round_trip_fails)
  next
    case True
    with bad have "\<exists>r2 \<in> set (urls db). ID r2 \<noteq> uid \<and> ShortPath r2 = ShortPath (set_clauses now req r)"
      by (simp add: set_clauses_fields)
    from db_UpdateURL_conflict[OF True assms this] show ?thesis by simp
  qed
  then show "\<exists>e. fst (db_UpdateURL now uid req db) = Inl e"
    and "urls (snd (db_UpdateURL now uid req db)) = urls db"
    by simp_all
qed

text \<open>
  The struct the handlers pass to the store is the one bound from the request body, and the
  binding never yields a pointer to nil for \<^verbatim>\<open>ExpiresAt\<close>: \<^verbatim>\<open>null\<close> and an absent member give
  the same struct. So no update sent through the handlers removes a stored expiry.
\<close>

lemma bind_null_is_absent:
  "bind_UpdateURLRequest (body\<lparr>j_expires_at := Null\<rparr>) = bind_UpdateURLRequest (body\<lparr>j_expires_at := Absent\<rparr>)"
  by (simp add: bind_UpdateURLRequest_def decode_pointer_to_pointer_def)

lemma bind_never_clears: "up_ExpiresAt (bind_UpdateURLRequest body) \<noteq> Some None"
  by (simp add: bind_UpdateURLRequest_def decode_pointer_to_pointer_def split: json_member.splits)

lemma set_clauses_bound_keeps_expiry:
  "ExpiresAt r \<noteq> None \<Longrightarrow> ExpiresAt (set_clauses now (bind_UpdateURLRequest body) r) \<noteq> None"
  using bind_never_clears[of body]
  by (cases "up_ExpiresAt (bind_UpdateURLRequest body)") (auto simp: set_clauses_fields)

lemma bound_update_never_clears_expiry:
  assumes "db_UpdateURL now uid (bind_UpdateURLRequest body) db = (Inr (Some url'), db')"
    and "\<forall>r \<in> set (urls db). ID r = uid \<longrightarrow> ExpiresAt r \<noteq> None"
  shows "ExpiresAt url' \<noteq> None"
proof -
  obtain e db1 where s: "send (Update uid (bind_UpdateURLRequest body)) db = (e, db1)"
    by (cases "send (Update uid (bind_UpdateURLRequest body)) db")
  have u: "urls db1 = urls db"
    using send_keeps[of "Update uid (bind_UpdateURLRequest body)" db] s by simp
  from assms(1) obtain r where f: "find (\<lambda>r. ID r = uid) (urls db) = Some r"
    and url': "url' = set_clauses now (bind_UpdateURLRequest body) r"
    unfolding db_UpdateURL_def s by (auto simp: u split: option.splits if_splits)
  from f have "r \<in> set (urls db)" "ID r = uid"
    by (auto simp: find_Some_iff)
  with assms(2) have "ExpiresAt r \<noteq> None" by blast
  then show ?thesis unfolding url' by (rule set_clauses_bound_keeps_expiry)
qed

text \<open>
  Claim C3 at a concrete request: a PATCH, and a PUT, of the second sample record with the
  body \<^verbatim>\<open>{"expires_at": null}\<close>. The bound struct has a nil \<^verbatim>\<open>ExpiresAt\<close>, the statement
  built has no assignment to \<^verbatim>\<open>expires_at\<close>, and the record answered with 200, and stored,
  still carries its expiry: the explicit null has not cleared it.
\<close>

theorem explicit_null_keeps_expires_at:
  "up_ExpiresAt (bind_UpdateURLRequest ex_body_null) = None \<and>
   fst (PatchURL (Some ''6ba7b810-9dad-11d1-80b4-00c04fd430c8'')
          (Inr (bind_UpdateURLRequest ex_body_null)) 1717246800000000000 ex_db ex_cache) =
     JSON 200 (URLBody \<lparr>ID = ''6ba7b810-9dad-11d1-80b4-00c04fd430c8'', ShortPath = ''promo-2024'',
       Destination = ''https://example.com/promo'', Title = None, Description = Some ''A great website'',
       ImageURL = None, ExpiresAt = Some \<lparr>instant = 1000, zone = 0\<rparr>, CreatedAt = 200, UpdatedAt = 1717246800000000000\<rparr>) \<and>
   fst (UpdateURL (Some ''6ba7b810-9dad-11d1-80b4-00c04fd430c8'')
          (Inr (bind_UpdateURLRequest ex_body_null)) 1717246800000000000 ex_db ex_cache) =
     JSON 200 (URLBody \<lparr>ID = ''6ba7b810-9dad-11d1-80b4-00c04fd430c8'', ShortPath = ''promo-2024'',
       Destination = ''https://example.com/promo'', Title = None, Description = Some ''A great website'',
       ImageURL = None, ExpiresAt = Some \<lparr>instant = 1000, zone = 0\<rparr>, CreatedAt = 200, UpdatedAt = 1717246800000000000\<rparr>) \<and>
   map ExpiresAt (urls (fst (snd (PatchURL (Some ''6ba7b810-9dad-11d1-80b4-00c04fd430c8'')
          (Inr (bind_UpdateURLRequest ex_body_null)) 1717246800000000000 ex_db ex_cache)))) =
     [None, Some \<lparr>instant = 1000, zone = 0\<rparr>]"
  by code_simp

lemma find_unique_id:
  "distinct (map ID rows) \<Longrightarrow> r \<in> set rows \<Longrightarrow> find (\<lambda>x. ID x = ID r) rows = Some r"
  by (induction rows) auto

text \<open>
  The two lookups on a table that respects the primary key and the unique index: the
  lookup by id returns a stored record whatever its expiry, and the lookup by short path
  returns a record with an expiry exactly when the text the driver stored for it is greater
  than the text of the current second.
\<close>

lemma db_GetURLByID_ignores_expiry:
  assumes "table_ok (urls db)" and "goes_through (db_errs db)" and "r \<in> set (urls db)"
  shows "fst (db_GetURLByID (ID r) db) = Inr (Some r)"
proof -
  have some: "find (\<lambda>x. ID x = ID r) (urls db) = Some r"
    using assms(1,3) by (simp add: table_ok_def find_unique_id)
  obtain db2 where s2: "send (SelectByID (ID r)) db = (None, db2)" and u2: "urls db2 = urls db"
    using send_goes_through[OF assms(2), of "SelectByID (ID r)"]
    by (cases "send (SelectByID (ID r)) db") auto
  show ?thesis
    by (simp add: db_GetURLByID_def s2 u2 some)
qed

lemma find_unique_path:
  "distinct (map ShortPath rows) \<Longrightarrow> r \<in> set rows \<Longrightarrow>
   find (\<lambda>x. ShortPath x = ShortPath r \<and> P x) rows = (if P r then Some r else None)"
proof (induction rows)
  case Nil
  then show ?case by simp
next
  case (Cons a rows)
  show ?case
  proof (cases "a = r")
    case True
    have "find (\<lambda>x. ShortPath x = ShortPath r \<and> P x) rows = None"
    proof (subst find_None_iff, intro notI, elim exE conjE)
      fix x assume "x \<in> set rows" "ShortPath x = ShortPath r"
      then have "ShortPath r \<in> ShortPath ` set rows" by (metis imageI)
      then show False using Cons.prems(1) True by simp
    qed
    then show ?thesis using True by simp
  next
    case False
    then have "r \<in> set rows" using Cons.prems(2) by simp
    moreover have "distinct (map ShortPath rows)" using Cons.prems(1) by simp
    moreover have "ShortPath a \<noteq> ShortPath r"
    proof
      assume "ShortPath a = ShortPath r"
      then have "ShortPath a \<in> ShortPath ` set rows" using \<open>r \<in> set rows\<close> by simp
      then show False using Cons.prems(1) by simp
    qed
    ultimately show ?thesis using Cons.IH by simp
  qed
qed

lemma db_GetURLByShortPath_compares_text:
  assumes "table_ok (urls db)" and "goes_through (db_errs db)"
    and "r \<in> set (urls db)" and "ExpiresAt r = Some t"
  shows "fst (db_GetURLByShortPath now (ShortPath r) db) =
           Inr (if datetime_now now < driver_text t then Some r else None)"
proof -
  have f: "find (\<lambda>x. ShortPath x = ShortPath r \<and> live now x) (urls db) = (if live now r then Some r else None)"
    using assms(1,3) by (simp add: table_ok_def find_unique_path)
  have l: "live now r \<longleftrightarrow> datetime_now now < driver_text t"
    using assms(4) by (simp add: live_def)
  obtain db1 where s1: "send (SelectByShortPath (ShortPath r)) db = (None, db1)" and u1: "urls db1 = urls db"
    using send_goes_through[OF assms(2), of "SelectByShortPath (ShortPath r)"]
    by (cases "send (SelectByShortPath (ShortPath r)) db") auto
  show ?thesis
    by (simp add: db_GetURLByShortPath_def s1 u1 f l)
qed

text \<open>
  The order of the two texts is not the order of the instants. A record whose expiry was
  sent with the offset \<^verbatim>\<open>+08:00\<close> is stored with a wall-clock reading eight hours ahead of
  UTC, and passes for live after it has expired; one sent with \<^verbatim>\<open>-05:00\<close> with a reading five
  hours behind, and is hidden while it is live; and an expiry with a fraction of a second
  outlasts, as text, the whole second it lies in, so that a lookup later in that second, for
  which the engine's clock still reads the second's start, returns the record.
\<close>

lemma live_text_of_ahead_zone:
  "live 1717246800000000000 (ex_url2\<lparr>ExpiresAt := Some \<lparr>instant = 1717243200000000000, zone = 28800\<rparr>\<rparr>)"
  by code_simp

lemma live_text_of_behind_zone:
  "\<not> live 1717236000000000000 (ex_url2\<lparr>ExpiresAt := Some \<lparr>instant = 1717243200000000000, zone = - 18000\<rparr>\<rparr>)"
  by code_simp

lemma live_text_within_second:
  "live 1717243200000000000 (ex_url2\<lparr>ExpiresAt := Some \<lparr>instant = 1717243200250000000, zone = 0\<rparr>\<rparr>) \<and>
   expired 1717243200750000000 (ex_url2\<lparr>ExpiresAt := Some \<lparr>instant = 1717243200250000000, zone = 0\<rparr>\<rparr>) \<and>
   driver_text \<lparr>instant = 1717243200250000000, zone = 0\<rparr> = ''2024-06-01 12:00:00.25+00:00'' \<and>
   datetime_now 1717243200000000000 = ''2024-06-01 12:00:00''"
  by code_simp

text \<open>
  Claim C5 at a concrete record. \<^verbatim>\<open>POST /urls\<close> at 10:00:00 UTC on 1 June 2024 with the short
  path \<^verbatim>\<open>summer-sale\<close> and \<^verbatim>\<open>expires_at\<close> \<^verbatim>\<open>2024-06-01T20:00:00+08:00\<close>, which is 12:00:00 UTC,
  is answered 201 and stores the record. At 13:00:00 UTC the expiry lies an hour in the
  past, but the column holds \<^verbatim>\<open>2024-06-01 20:00:00+08:00\<close>, which as text is greater than
  \<^verbatim>\<open>2024-06-01 13:00:00\<close>: the lookup by short path returns the record, as the lookup by
  id does.
\<close>

theorem expired_record_found_by_short_path:
  "fst (CreateURL (Inr ex_create_sale) 1717236000000000000 ex_rnd ex_new_id ex_db ex_cache) =
     JSON 201 (URLBody ex_url_sale) \<and>
   urls (fst (snd (CreateURL (Inr ex_create_sale) 1717236000000000000 ex_rnd ex_new_id ex_db ex_cache))) =
     [ex_url1, ex_url2, ex_url_sale] \<and>
   expired 1717246800000000000 ex_url_sale \<and>
   driver_text \<lparr>instant = 1717243200000000000, zone = 28800\<rparr> = ''2024-06-01 20:00:00+08:00'' \<and>
   datetime_now 1717246800000000000 = ''2024-06-01 13:00:00'' \<and>
   fst (db_GetURLByShortPath 1717246800000000000 ''summer-sale''
          (fst (snd (CreateURL (Inr ex_create_sale) 1717236000000000000 ex_rnd ex_new_id ex_db ex_cache)))) =
     Inr (Some ex_url_sale) \<and>
   fst (db_GetURLByID ''123e4567-e89b-12d3-a456-426614174000''
          (fst (snd (CreateURL (Inr ex_create_sale) 1717236000000000000 ex_rnd ex_new_id ex_db ex_cache)))) =
     Inr (Some ex_url_sale)"
  by code_simp

lemma resolver_loop_keeps_table:
  assumes "k = maxAttempts - a"
  shows "urls (snd (resolver_loop shortPathExists rnd pos a db)) = urls db \<and>
         unique_msg (snd (resolver_loop shortPathExists rnd pos a db)) = unique_msg db \<and>
         pkey_msg (snd (resolver_loop shortPathExists rnd pos a db)) = pkey_msg db"
  using assms
proof (induction k arbitrary: a pos db)
  case 0
  then show ?case by (simp add: resolver_loop.simps[of shortPathExists rnd pos a db])
next
  case (Suc k)
  then have lt: "a < maxAttempts" by simp
  let ?c = "generateRandomString rnd pos (minLength + a)"
  obtain e db1 where s: "send (SelectExists ?c) db = (e, db1)" by (cases "send (SelectExists ?c) db")
  have keep: "urls db1 = urls db" "unique_msg db1 = unique_msg db" "pkey_msg db1 = pkey_msg db"
    using send_keeps[of "SelectExists ?c" db] s by simp_all
  have IH: "urls (snd (resolver_loop shortPathExists rnd (pos + (minLength + a)) (a + 1) db1)) = urls db1 \<and>
      unique_msg (snd (resolver_loop shortPathExists rnd (pos + (minLength + a)) (a + 1) db1)) = unique_msg db1 \<and>
      pkey_msg (snd (resolver_loop shortPathExists rnd (pos + (minLength + a)) (a + 1) db1)) = pkey_msg db1"
    by (rule Suc.IH) (use Suc.prems in simp)
  show ?case
  proof (cases e)
    case None
    have chk: "shortPathExists ?c db = (Inr (\<exists>r \<in> set (urls db1). ShortPath r = ?c), db1)"
      by (simp add: shortPathExists_def s None)
    show ?thesis
      using lt keep IH by (simp add: resolver_loop.simps[of shortPathExists rnd pos a db] Let_def chk)
  next
    case (Some err)
    have chk: "shortPathExists ?c db = (Inl err, db1)"
      by (simp add: shortPathExists_def s Some)
    show ?thesis
      using lt keep by (simp add: resolver_loop.simps[of shortPathExists rnd pos a db] Let_def chk)
  qed
qed

lemma generateUniqueShortPath_keeps_table:
  "urls (snd (generateUniqueShortPath rnd db)) = urls db"
  "unique_msg (snd (generateUniqueShortPath rnd db)) = unique_msg db"
  "pkey_msg (snd (generateUniqueShortPath rnd db)) = pkey_msg db"
  using resolver_loop_keeps_table[of maxAttempts 0 rnd 0 db]
  by (simp_all add: generateUniqueShortPath_def resolve_with_def)

text \<open>
  The resolver against the store itself: a path it returns has between 6 and 15 characters,
  all from the 62-character alphabet, and is the short path of no row.
\<close>

lemma generateRandomString_charset: "set (generateRandomString rnd pos len) \<subseteq> set charset"
proof -
  have "0 < length charset"
    by (simp add: charset_def)
  then have "charset ! (x mod length charset) \<in> set charset" for x
    by simp
  then show ?thesis
    by (auto simp: generateRandomString_def rand_Int_def)
qed

lemma resolver_loop_result:
  assumes "k = maxAttempts - a" and "resolver_loop shortPathExists rnd pos a db = (Inr p, db')"
  shows "p \<notin> ShortPath ` set (urls db) \<and> minLength + a \<le> length p \<and> length p < minLength + maxAttempts \<and>
         set p \<subseteq> set charset"
  using assms
proof (induction k arbitrary: a pos db)
  case 0
  then show ?case by (simp add: resolver_loop.simps[of shortPathExists rnd pos a db])
next
  case (Suc k)
  then have lt: "a < maxAttempts" by simp
  let ?c = "generateRandomString rnd pos (minLength + a)"
  obtain e db1 where s: "send (SelectExists ?c) db = (e, db1)" by (cases "send (SelectExists ?c) db")
  have keep: "urls db1 = urls db"
    using send_keeps(1)[of "SelectExists ?c" db] s by simp
  show ?case
  proof (cases e)
    case (Some err)
    have "shortPathExists ?c db = (Inl err, db1)"
      by (simp add: shortPathExists_def s Some)
    then show ?thesis
      using lt Suc.prems(2) by (simp add: resolver_loop.simps[of shortPathExists rnd pos a db] Let_def)
  next
    case None
    have chk: "shortPathExists ?c db = (Inr (\<exists>r \<in> set (urls db). ShortPath r = ?c), db1)"
      by (simp add: shortPathExists_def s None keep)
    show ?thesis
    proof (cases "\<exists>r \<in> set (urls db). ShortPath r = ?c")
      case False
      then have "p = ?c"
        using lt Suc.prems(2) by (simp add: resolver_loop.simps[of shortPathExists rnd pos a db] Let_def chk)
      then show ?thesis
        using False lt generateRandomString_charset[of rnd pos "minLength + a"]
        by (auto simp: length_generateRandomString)
    next
      case True
      then have next_run: "resolver_loop shortPathExists rnd (pos + (minLength + a)) (a + 1) db1 = (Inr p, db')"
        using lt Suc.prems(2) by (simp add: resolver_loop.simps[of shortPathExists rnd pos a db] Let_def chk)
      have "p \<notin> ShortPath ` set (urls db1) \<and> minLength + (a + 1) \<le> length p \<and>
          length p < minLength + maxAttempts \<and> set p \<subseteq> set charset"
        by (rule Suc.IH[OF _ next_run]) (use Suc.prems(1) in simp)
      then show ?thesis by (simp add: keep)
    qed
  qed
qed

lemma generateUniqueShortPath_result:
  assumes "generateUniqueShortPath rnd db = (Inr p, db')"
  shows "p \<notin> ShortPath ` set (urls db) \<and> 6 \<le> length p \<and> length p \<le> 15 \<and> set p \<subseteq> set charset"
  using resolver_loop_result[of maxAttempts 0 rnd 0 db p db'] assms
  by (simp add: generateUniqueShortPath_def resolve_with_def minLength_def maxAttempts_def)

lemma table_ok_append:
  "table_ok rows \<Longrightarrow> \<forall>r \<in> set rows. ID r \<noteq> ID url \<Longrightarrow> \<forall>r \<in> set rows. ShortPath r \<noteq> ShortPath url \<Longrightarrow>
   table_ok (rows @ [url])"
  by (auto simp: table_ok_def)

lemma db_CreateURL_table_ok:
  assumes "table_ok (urls db)"
  shows "table_ok (urls (snd (db_CreateURL now rnd new_id req db)))"
proof -
  define g where "g = (case cr_ShortPath req of
              None \<Rightarrow> generateUniqueShortPath rnd db
            | Some p \<Rightarrow> if p = [] then generateUniqueShortPath rnd db else (Inr p, db))"
  have g: "urls (snd g) = urls db"
    by (simp add: g_def generateUniqueShortPath_keeps_table split: option.splits)
  obtain res db1 where gr: "g = (res, db1)" by (cases g)
  have u1: "urls db1 = urls db" using g gr by simp
  show ?thesis
  proof (cases res)
    case (Inl err)
    then show ?thesis
      using assms u1 gr unfolding db_CreateURL_def g_def[symmetric] by simp
  next
    case (Inr shortPath)
    obtain e db2 where s: "send (Insert new_id shortPath) db1 = (e, db2)"
      by (cases "send (Insert new_id shortPath) db1")
    have u2: "urls db2 = urls db" using send_keeps(1)[of "Insert new_id shortPath" db1] s u1 by simp
    let ?url = "\<lparr>ID = new_id, ShortPath = shortPath, Destination = cr_Destination req,
                  Title = cr_Title req, Description = cr_Description req,
                  ImageURL = cr_ImageURL req, ExpiresAt = cr_ExpiresAt req,
                  CreatedAt = now, UpdatedAt = now\<rparr>"
    have fresh: "table_ok (urls db2 @ [?url])"
      if "\<not> (\<exists>r \<in> set (urls db2). ID r = new_id)" "\<not> (\<exists>r \<in> set (urls db2). ShortPath r = shortPath)"
      using that assms u2 by (intro table_ok_append) auto
    show ?thesis
    proof (cases e)
      case (Some err)
      have "db_CreateURL now rnd new_id req db = (Inl (''failed to create URL: '' @ err), db2)"
        unfolding db_CreateURL_def g_def[symmetric] gr Inr by (simp add: s Some)
      then show ?thesis using assms u2 by simp
    next
      case None
      consider (pk) "\<exists>r \<in> set (urls db2). ID r = new_id"
        | (uq) "\<not> (\<exists>r \<in> set (urls db2). ID r = new_id)" "\<exists>r \<in> set (urls db2). ShortPath r = shortPath"
        | (ok) "\<not> (\<exists>r \<in> set (urls db2). ID r = new_id)" "\<not> (\<exists>r \<in> set (urls db2). ShortPath r = shortPath)"
        by blast
      then show ?thesis
      proof cases
        case pk
        then have "db_CreateURL now rnd new_id req db = (Inl (''failed to create URL: '' @ pkey_msg db2), db2)"
          unfolding db_CreateURL_def g_def[symmetric] gr Inr by (simp add: s None)
        then show ?thesis using assms u2 by simp
      next
        case uq
        then have "db_CreateURL now rnd new_id req db = (Inl (''failed to create URL: '' @ unique_msg db2), db2)"
          unfolding db_CreateURL_def g_def[symmetric] gr Inr by (simp add: s None)
        then show ?thesis using assms u2 by simp
      next
        case ok
        then have "db_CreateURL now rnd new_id req db = (Inr ?url, db2\<lparr>urls := urls db2 @ [?url]\<rparr>)"
          unfolding db_CreateURL_def g_def[symmetric] gr Inr by (simp add: s None Let_def)
        then show ?thesis using fresh[OF ok] by simp
      qed
    qed
  qed
qed

lemma distinct_paths_after_update:
  assumes "distinct (map ID rows)" "distinct (map ShortPath rows)"
    and "\<And>r. ID (f r) = ID r"
    and "\<forall>r \<in> set rows. ID r = uid \<longrightarrow> (\<forall>r2 \<in> set rows. ID r2 \<noteq> uid \<longrightarrow> ShortPath r2 \<noteq> ShortPath (f r))"
  shows "distinct (map ShortPath (map (\<lambda>r. if ID r = uid then f r else r) rows))"
  using assms
proof (induction rows)
  case Nil
  then show ?case by simp
next
  case (Cons x xs)
  have tl: "distinct (map ShortPath (map (\<lambda>r. if ID r = uid then f r else r) xs))"
    by (rule Cons.IH) (use Cons.prems in auto)
  show ?case
  proof (cases "ID x = uid")
    case True
    then have others: "\<forall>y \<in> set xs. ID y \<noteq> uid" using Cons.prems(1) by (auto simp: image_iff)
    then have same: "map (\<lambda>r. if ID r = uid then f r else r) xs = xs" by (simp add: map_idI)
    have "ShortPath (f x) \<notin> ShortPath ` set xs"
      using Cons.prems(4) True others by auto
    then show ?thesis using True tl same by simp
  next
    case False
    have "ShortPath x \<noteq> ShortPath (if ID y = uid then f y else y)" if "y \<in> set xs" for y
      using that Cons.prems(2,4) False by (cases "ID y = uid") auto
    then show ?thesis using False tl by auto
  qed
qed

lemma db_UpdateURL_table_ok:
  assumes "table_ok (urls db)"
  shows "table_ok (urls (snd (db_UpdateURL now uid req db)))"
proof -
  obtain e db1 where s: "send (Update uid req) db = (e, db1)" by (cases "send (Update uid req) db")
  have u: "urls db1 = urls db" using send_keeps(1)[of "Update uid req" db] s by simp
  show ?thesis
  proof (cases "find (\<lambda>r. ID r = uid) (urls db)")
    case None
    then show ?thesis using assms u s by (simp add: db_UpdateURL_def split: option.splits)
  next
    case (Some r)
    have the_row: "x = r" if "x \<in> set (urls db)" "ID x = uid" for x
      using that Some assms find_unique_id[of "urls db" x] by (simp add: table_ok_def)
    show ?thesis
    proof (cases "\<exists>r2 \<in> set (urls db). ID r2 \<noteq> uid \<and> ShortPath r2 = ShortPath (set_clauses now req r)")
      case True
      then show ?thesis using assms u s Some by (simp add: db_UpdateURL_def split: option.splits)
    next
      case False
      have ids: "map ID (map (\<lambda>r. if ID r = uid then set_clauses now req r else r) (urls db)) = map ID (urls db)"
        by (simp add: ID_set_clauses)
      have paths: "distinct (map ShortPath (map (\<lambda>r. if ID r = uid then set_clauses now req r else r) (urls db)))"
        using assms False the_row
        by (intro distinct_paths_after_update) (auto simp: table_ok_def ID_set_clauses)
      have "table_ok (map (\<lambda>r. if ID r = uid then set_clauses now req r else r) (urls db))"
        unfolding table_ok_def using ids paths assms by (simp add: table_ok_def del: map_map)
      then show ?thesis using assms u s Some False by (auto simp: db_UpdateURL_def split: option.splits)
    qed
  qed
qed

lemma db_DeleteURL_urls:
  "urls (snd (db_DeleteURL uid db)) =
     (if fst (send (Delete uid) db) = None then filter (\<lambda>r. ID r \<noteq> uid) (urls db) else urls db)"
proof -
  obtain e db1 where s: "send (Delete uid) db = (e, db1)" by (cases "send (Delete uid) db")
  have u: "urls db1 = urls db" using send_keeps(1)[of "Delete uid" db] s by simp
  show ?thesis
    unfolding db_DeleteURL_def s using u
    by (cases e; cases "db_errs db1") (auto simp: Let_def split: option.splits list.splits)
qed

lemma db_DeleteURL_table_ok:
  assumes "table_ok (urls db)"
  shows "table_ok (urls (snd (db_DeleteURL uid db)))"
  using assms by (simp add: db_DeleteURL_urls table_ok_def distinct_map_filter)

section \<open>Properties of short-path validation\<close>

lemma chars_loop_iff: "chars_loop s \<longleftrightarrow> (\<forall>c \<in> set s. allowed_char c)"
  by (induction s) auto

lemma reserved_loop_iff: "reserved_loop lowerPath rs \<longleftrightarrow> lowerPath \<in> set rs"
  by (induction rs) auto

lemma reservedPaths_lower: "map ToLower reservedPaths = reservedPaths"
  by (simp add: reservedPaths_def ToLower_def lower_char_def less_eq_char_def)

lemma isReservedPath_iff: "isReservedPath p \<longleftrightarrow> (\<exists>r \<in> set reservedPaths. ToLower p = ToLower r)"
proof -
  have "ToLower r = r" if "r \<in> set reservedPaths" for r
    using that reservedPaths_lower map_eq_conv[of ToLower reservedPaths id] by simp
  then show ?thesis
    by (auto simp: isReservedPath_def reserved_loop_iff)
qed

lemma isValidShortPath_iff:
  "isValidShortPath p \<longleftrightarrow>
     1 \<le> length p \<and> length p \<le> 255 \<and> (\<forall>c \<in> set p. allowed_char c) \<and>
     (\<forall>r \<in> set reservedPaths. ToLower p \<noteq> ToLower r)"
  by (cases p) (auto simp: isValidShortPath_def chars_loop_iff isReservedPath_iff)

lemma allowed_char_enum:
  "allowed_char c \<longleftrightarrow> c \<in> set ''abcdefghijklmnopqrstuvwxyzABCDEFGHIJKLMNOPQRSTUVWXYZ0123456789-''"
  by (cases c) (simp add: allowed_char_def less_eq_char_def, blast?)


lemma short_path_rejection_iff:
  "short_path_rejection (Some p) = None \<longleftrightarrow> p = [] \<or> isValidShortPath p"
  by (simp add: short_path_rejection_def)

lemma short_path_rejection_status:
  "short_path_rejection sp = Some rejection \<Longrightarrow> status rejection = Some 400"
  by (auto simp: short_path_rejection_def split: option.splits if_splits)

lemma invalid_short_path_rejected:
  assumes "p \<noteq> []" "\<not> isValidShortPath p"
  shows "(cr_ShortPath creq = Some p \<longrightarrow>
            status (fst (CreateURL (Inr creq) now rnd new_id db cache)) = Some 400 \<and>
            snd (CreateURL (Inr creq) now rnd new_id db cache) = (db, cache)) \<and>
         (up_ShortPath ureq = Some p \<longrightarrow>
            status (fst (UpdateURL (Some uid) (Inr ureq) now db cache)) = Some 400 \<and>
            snd (UpdateURL (Some uid) (Inr ureq) now db cache) = (db, cache) \<and>
            status (fst (PatchURL (Some uid) (Inr ureq) now db cache)) = Some 400 \<and>
            snd (PatchURL (Some uid) (Inr ureq) now db cache) = (db, cache))"
proof -
  obtain rejection where r: "short_path_rejection (Some p) = Some rejection"
    using assms short_path_rejection_iff[of p] by (cases "short_path_rejection (Some p)") auto
  have st: "status rejection = Some 400"
    using r by (rule short_path_rejection_status)
  show ?thesis
    using r st by (simp add: CreateURL_def UpdateURL_def PatchURL_def)
qed

lemma db_CreateURL_empty_path_as_absent:
  "cr_ShortPath creq = Some [] \<Longrightarrow>
     db_CreateURL now rnd new_id creq db = db_CreateURL now rnd new_id (creq\<lparr>cr_ShortPath := None\<rparr>) db"
  unfolding db_CreateURL_def
  by (simp cong: prod.case_cong sum.case_cong option.case_cong if_cong)

lemma create_empty_path_as_absent:
  "cr_ShortPath creq = Some [] \<Longrightarrow>
     CreateURL (Inr creq) now rnd new_id db cache =
     CreateURL (Inr (creq\<lparr>cr_ShortPath := None\<rparr>)) now rnd new_id db cache"
  by (simp add: CreateURL_def short_path_rejection_def db_CreateURL_empty_path_as_absent)


text \<open>
  Claim C9, as amended. \<^verbatim>\<open>isValidShortPath\<close> accepts exactly the strings of 1 to 255 characters
  drawn from a-z, A-Z, 0-9 and the hyphen that differ from every reserved path when case is
  ignored. The handlers apply it to a supplied short path that is not empty: such a path
  that fails the check ends create, update and patch with status 400 and leaves the store
  and the cache as they were, with no statement or command sent. An empty short path is
  not checked; create handles it as an absent one (a path is generated).
\<close>

theorem short_path_validation:
  "(isValidShortPath p \<longleftrightarrow>
      1 \<le> length p \<and> length p \<le> 255 \<and>
      (\<forall>c \<in> set p. c \<in> set ''abcdefghijklmnopqrstuvwxyzABCDEFGHIJKLMNOPQRSTUVWXYZ0123456789-'') \<and>
      (\<forall>r \<in> set reservedPaths. ToLower p \<noteq> ToLower r)) \<and>
   (short_path_rejection (Some p) = None \<longleftrightarrow> p = [] \<or> isValidShortPath p) \<and>
   (p \<noteq> [] \<and> \<not> isValidShortPath p \<longrightarrow>
      (cr_ShortPath creq = Some p \<longrightarrow>
         status (fst (CreateURL (Inr creq) now rnd new_id db cache)) = Some 400 \<and>
         snd (CreateURL (Inr creq) now rnd new_id db cache) = (db, cache)) \<and>
      (up_ShortPath ureq = Some p \<longrightarrow>
         status (fst (UpdateURL (Some uid) (Inr ureq) now db cache)) = Some 400 \<and>
         snd (UpdateURL (Some uid) (Inr ureq) now db cache) = (db, cache) \<and>
         status (fst (PatchURL (Some uid) (Inr ureq) now db cache)) = Some 400 \<and>
         snd (PatchURL (Some uid) (Inr ureq) now db cache) = (db, cache))) \<and>
   (cr_ShortPath creq = Some [] \<longrightarrow>
      CreateURL (Inr creq) now rnd new_id db cache =
      CreateURL (Inr (creq\<lparr>cr_ShortPath := None\<rparr>)) now rnd new_id db cache)"
proof -
  have a: "isValidShortPath p \<longleftrightarrow>
      1 \<le> length p \<and> length p \<le> 255 \<and>
      (\<forall>c \<in> set p. c \<in> set ''abcdefghijklmnopqrstuvwxyzABCDEFGHIJKLMNOPQRSTUVWXYZ0123456789-'') \<and>
      (\<forall>r \<in> set reservedPaths. ToLower p \<noteq> ToLower r)"
    unfolding isValidShortPath_iff allowed_char_enum ..
  show ?thesis
    using a short_path_rejection_iff[of p]
      invalid_short_path_rejected[of p creq now rnd new_id db cache ureq uid]
      create_empty_path_as_absent[of creq now rnd new_id db cache]
    by blast
qed

theorem short_path_validation_witness:
  "\<not> isValidShortPath ''Admin'' \<and>
   status (fst (CreateURL (Inr (ex_create (Some ''Admin''))) 5000 ex_rnd ex_new_id ex_db ex_cache)) = Some 400 \<and>
   snd (CreateURL (Inr (ex_create (Some ''Admin''))) 5000 ex_rnd ex_new_id ex_db ex_cache) = (ex_db, ex_cache) \<and>
   status (fst (PatchURL (Some ex_new_id) (Inr (ex_req_title\<lparr>up_ShortPath := Some ''a_b''\<rparr>)) 5000 ex_db ex_cache)) = Some 400 \<and>
   isValidShortPath ''my-link-2024'' \<and>
   short_path_rejection (Some ''my-link-2024'') = None"
proof -
  have reserved: "ToLower ''Admin'' = ToLower ''admin''"
    by code_simp
  have "''admin'' \<in> set reservedPaths"
    by (simp add: reservedPaths_def)
  with reserved have bad1: "\<not> isValidShortPath ''Admin''"
    using short_path_validation [of "''Admin''"] by blast
  have "CHR ''_'' \<notin> set ''abcdefghijklmnopqrstuvwxyzABCDEFGHIJKLMNOPQRSTUVWXYZ0123456789-''"
    by simp
  then have bad2: "\<not> isValidShortPath ''a_b''"
    using short_path_validation [of "''a_b''"] by auto
  have good: "isValidShortPath ''my-link-2024''"
    by code_simp
  have c1: "cr_ShortPath (ex_create (Some ''Admin'')) = Some ''Admin''"
    by (simp add: ex_create_def)
  have c2: "up_ShortPath (ex_req_title\<lparr>up_ShortPath := Some ''a_b''\<rparr>) = Some ''a_b''"
    by simp
  from short_path_validation [of "''Admin''" "ex_create (Some ''Admin'')" 5000 ex_rnd ex_new_id ex_db ex_cache]
    bad1 c1
  have r1: "status (fst (CreateURL (Inr (ex_create (Some ''Admin''))) 5000 ex_rnd ex_new_id ex_db ex_cache)) = Some 400 \<and>
     snd (CreateURL (Inr (ex_create (Some ''Admin''))) 5000 ex_rnd ex_new_id ex_db ex_cache) = (ex_db, ex_cache)"
    by simp
  from short_path_validation [of "''a_b''" _ 5000 _ _ ex_db ex_cache "ex_req_title\<lparr>up_ShortPath := Some ''a_b''\<rparr>" ex_new_id]
    bad2 c2
  have r2: "status (fst (PatchURL (Some ex_new_id) (Inr (ex_req_title\<lparr>up_ShortPath := Some ''a_b''\<rparr>)) 5000 ex_db ex_cache)) = Some 400"
    by simp
  from short_path_validation [of "''my-link-2024''"] good
  have r3: "short_path_rejection (Some ''my-link-2024'') = None"
    by blast
  from bad1 r1 r2 good r3 show ?thesis by blast
qed

text \<open>
  Claim C9 as stated fails for the empty short path: its length is not between 1 and 255,
  yet create answers 201 after inserting a row under a generated path.
\<close>

theorem empty_short_path_not_rejected:
  "\<not> 1 \<le> length ([] :: string) \<and>
   fst (CreateURL (Inr (ex_create (Some []))) 5000 ex_rnd ex_new_id ex_db ex_cache) =
     JSON 201 (URLBody \<lparr>ID = ex_new_id, ShortPath = ''ahovCJ'', Destination = ''https://example.org'',
       Title = None, Description = None, ImageURL = None, ExpiresAt = None,
       CreatedAt = 5000, UpdatedAt = 5000\<rparr>) \<and>
   db_log (fst (snd (CreateURL (Inr (ex_create (Some []))) 5000 ex_rnd ex_new_id ex_db ex_cache))) =
     [SelectExists ''ahovCJ'', Insert ex_new_id ''ahovCJ'']"
  by code_simp

section \<open>Properties of the cache client and the read, delete and redirect handlers\<close>

lemma redis_keeps:
  "kv (snd (redis cmd c)) = kv c" "cache_log (snd (redis cmd c)) = cache_log c @ [cmd]"
  by (auto simp: redis_def split: list.splits)

lemma redis_healthy:
  "cache_errs c = [] \<Longrightarrow> redis cmd c = (None, c\<lparr>cache_log := cache_log c @ [cmd]\<rparr>)"
  by (simp add: redis_def)

lemma cache_get_log: "cache_log (snd (cache_get key c)) = cache_log c @ [GET key]"
  and cache_get_kv: "kv (snd (cache_get key c)) = kv c"
  using redis_keeps[of "GET key" c]
  by (cases "redis (GET key) c"; auto simp: cache_get_def split: option.splits)+

lemma cache_get_errs: "cache_errs c = [] \<Longrightarrow> cache_errs (snd (cache_get key c)) = []"
  by (auto simp: cache_get_def redis_healthy split: option.splits)

lemma cache_set_log: "cache_log (snd (cache_set key url c)) = cache_log c @ [SET key url]"
  using redis_keeps[of "SET key url" c]
  by (cases "redis (SET key url) c") (auto simp: cache_set_def split: option.splits)

lemma cache_set_kv_other: "k \<noteq> key \<Longrightarrow> kv (snd (cache_set key url c)) k = kv c k"
  using redis_keeps[of "SET key url" c]
  by (cases "redis (SET key url) c") (auto simp: cache_set_def split: option.splits)

lemma cache_set_healthy:
  "cache_errs c = [] \<Longrightarrow>
     cache_set key url c = (None, c\<lparr>cache_log := cache_log c @ [SET key url], kv := (kv c)(key \<mapsto> url)\<rparr>)"
  by (simp add: cache_set_def redis_healthy)

lemma cache_del_log: "cache_log (snd (cache_del key c)) = cache_log c @ [DEL key]"
  using redis_keeps[of "DEL key" c]
  by (cases "redis (DEL key) c") (auto simp: cache_del_def split: option.splits)

lemma cache_del_healthy:
  "cache_errs c = [] \<Longrightarrow>
     cache_del key c = (None, c\<lparr>cache_log := cache_log c @ [DEL key], kv := (kv c)(key := None)\<rparr>)"
  by (simp add: cache_del_def redis_healthy)

lemma keys_apart: "id_key uid \<noteq> path_key shortPath"
  by (simp add: id_key_def path_key_def)

text \<open>
  Get-by-id on a cache miss or cache error with the record in the store: the record is
  returned after both entries were written, the one under the id first.
\<close>

lemma GetURL_fills_both_keys:
  assumes miss: "\<forall>u. fst (cache_GetURLByID uid cache) \<noteq> Inr (Some u)"
    and hit: "fst (db_GetURLByID uid db) = Inr (Some url)"
  shows "fst (GetURL (Some uid) db cache) = JSON 200 (URLBody url) \<and>
     cache_log (snd (snd (GetURL (Some uid) db cache))) =
       cache_log cache @ [GET (id_key uid), SET (id_key uid) (Some url), SET (path_key (ShortPath url)) (Some url)] \<and>
     (cache_errs cache = [] \<longrightarrow>
        kv (snd (snd (GetURL (Some uid) db cache))) =
          (kv cache)(id_key uid \<mapsto> Some url, path_key (ShortPath url) \<mapsto> Some url))"
proof -
  obtain got c1 where g: "cache_GetURLByID uid cache = (got, c1)" by (cases "cache_GetURLByID uid cache")
  have nohit: "(case got of Inl err \<Rightarrow> None | Inr cached \<Rightarrow> cached) = None"
    using miss g by (cases got) auto
  have l1: "cache_log c1 = cache_log cache @ [GET (id_key uid)]" and k1: "kv c1 = kv cache"
    using cache_get_log[of "id_key uid" cache] cache_get_kv[of "id_key uid" cache] g
    by (simp_all add: cache_GetURLByID_def)
  have e1: "cache_errs c1 = []" if "cache_errs cache = []"
    using cache_get_errs[OF that, of "id_key uid"] g by (simp add: cache_GetURLByID_def)
  obtain db1 where d: "db_GetURLByID uid db = (Inr (Some url), db1)"
    using hit by (cases "db_GetURLByID uid db") auto
  obtain s1 c2 where s1: "cache_SetURLByID uid (Some url) c1 = (s1, c2)"
    by (cases "cache_SetURLByID uid (Some url) c1")
  obtain s2 c3 where s2: "cache_SetURL (ShortPath url) (Some url) c2 = (s2, c3)"
    by (cases "cache_SetURL (ShortPath url) (Some url) c2")
  have run: "GetURL (Some uid) db cache = (JSON 200 (URLBody url), db1, c3)"
    by (simp add: GetURL_def g nohit d s1 s2)
  have l2: "cache_log c2 = cache_log c1 @ [SET (id_key uid) (Some url)]"
    using cache_set_log[of "id_key uid" "Some url" c1] s1 by (simp add: cache_SetURLByID_def)
  have l3: "cache_log c3 = cache_log c2 @ [SET (path_key (ShortPath url)) (Some url)]"
    using cache_set_log[of "path_key (ShortPath url)" "Some url" c2] s2 by (simp add: cache_SetURL_def)
  have kvs: "kv c3 = (kv cache)(id_key uid \<mapsto> Some url, path_key (ShortPath url) \<mapsto> Some url)"
    if h: "cache_errs cache = []"
  proof -
    have "c2 = c1\<lparr>cache_log := cache_log c1 @ [SET (id_key uid) (Some url)], kv := (kv c1)(id_key uid \<mapsto> Some url)\<rparr>"
      using cache_set_healthy[OF e1[OF h], of "id_key uid" "Some url"] s1 by (simp add: cache_SetURLByID_def)
    moreover from this have "cache_errs c2 = []" using e1[OF h] by simp
    then have "c3 = c2\<lparr>cache_log := cache_log c2 @ [SET (path_key (ShortPath url)) (Some url)],
        kv := (kv c2)(path_key (ShortPath url) \<mapsto> Some url)\<rparr>"
      using cache_set_healthy[of c2 "path_key (ShortPath url)" "Some url"] s2 by (simp add: cache_SetURL_def)
    ultimately show ?thesis using k1 by simp
  qed
  show ?thesis
    using run l1 l2 l3 kvs by simp
qed

text \<open>
  Redirect in the same situation sends one write, for the entry under the short path, and
  leaves every entry of the id key-space as it was.
\<close>

lemma Redirect_fills_path_key_only:
  assumes "shortPath \<noteq> []"
    and miss: "\<forall>u. fst (cache_GetURL shortPath cache) \<noteq> Inr (Some u)"
    and hit: "fst (db_GetURLByShortPath now_db shortPath db) = Inr (Some url)"
  shows "cache_log (snd (snd (Redirect tmpl twitterDomain now_db now shortPath db cache))) =
       cache_log cache @ [GET (path_key shortPath), SET (path_key shortPath) (Some url)] \<and>
     (\<forall>k. kv (snd (snd (Redirect tmpl twitterDomain now_db now shortPath db cache))) (id_key k) =
          kv cache (id_key k))"
proof -
  obtain got c1 where g: "cache_GetURL shortPath cache = (got, c1)" by (cases "cache_GetURL shortPath cache")
  have nohit: "(case got of Inl err \<Rightarrow> None | Inr cached \<Rightarrow> cached) = None"
    using miss g by (cases got) auto
  have l1: "cache_log c1 = cache_log cache @ [GET (path_key shortPath)]" and k1: "kv c1 = kv cache"
    using cache_get_log[of "path_key shortPath" cache] cache_get_kv[of "path_key shortPath" cache] g
    by (simp_all add: cache_GetURL_def)
  obtain db1 where d: "db_GetURLByShortPath now_db shortPath db = (Inr (Some url), db1)"
    using hit by (cases "db_GetURLByShortPath now_db shortPath db") auto
  obtain s1 c2 where s1: "cache_SetURL shortPath (Some url) c1 = (s1, c2)"
    by (cases "cache_SetURL shortPath (Some url) c1")
  have l2: "cache_log c2 = cache_log c1 @ [SET (path_key shortPath) (Some url)]"
    using cache_set_log[of "path_key shortPath" "Some url" c1] s1 by (simp add: cache_SetURL_def)
  have k2: "kv c2 (id_key k) = kv c1 (id_key k)" for k
    using cache_set_kv_other[where k = "id_key k" and key = "path_key shortPath" and url = "Some url" and c = c1, OF keys_apart] s1 by (simp add: cache_SetURL_def)
  have "snd (snd (Redirect tmpl twitterDomain now_db now shortPath db cache)) = c2"
    using assms(1) by (simp add: Redirect_def g nohit d s1 split: sum.splits)
  then show ?thesis
    using l1 l2 k1 k2 by simp
qed

text \<open>
  Claim C2 at a concrete request: the cache is empty, the store holds the record with short
  path \<open>abc123\<close>. The redirect serves the page, the cache log shows the lookup and a single
  write, and afterwards the entry keyed by the short path is filled while the entry keyed
  by the record's id is still absent.
\<close>

theorem redirect_miss_leaves_id_key_cold:
  "fst (Redirect ex_tmpl ''example.com'' 500 500 ''abc123'' ex_db ex_cache) =
     HTML ''<meta http-equiv=refresh content=0;url=https://example.com>'' \<and>
   cache_log (snd (snd (Redirect ex_tmpl ''example.com'' 500 500 ''abc123'' ex_db ex_cache))) =
     [GET ''url:abc123'', SET ''url:abc123'' (Some ex_url1)] \<and>
   kv (snd (snd (Redirect ex_tmpl ''example.com'' 500 500 ''abc123'' ex_db ex_cache))) ''url:abc123'' =
     Some (Some ex_url1) \<and>
   kv (snd (snd (Redirect ex_tmpl ''example.com'' 500 500 ''abc123'' ex_db ex_cache)))
     ''url_id:550e8400-e29b-41d4-a716-446655440000'' = None"
  by code_simp

lemma send_healthy:
  "db_errs db = [] \<Longrightarrow> send stmt db = (None, db\<lparr>db_log := db_log db @ [stmt]\<rparr>)"
  by (simp add: send_def)

lemma db_GetURLByID_goes_through:
  "goes_through (db_errs db) \<Longrightarrow>
     db_GetURLByID uid db = (Inr (find (\<lambda>r. ID r = uid) (urls db)), snd (send (SelectByID uid) db))"
  using send_goes_through[of db "SelectByID uid"]
  by (cases "send (SelectByID uid) db") (simp add: db_GetURLByID_def)

lemma db_DeleteURL_healthy:
  "db_errs db = [] \<Longrightarrow>
     db_DeleteURL uid db =
       (if filter (\<lambda>r. ID r = uid) (urls db) = [] then Some ''URL not found'' else None,
        db\<lparr>db_log := db_log db @ [Delete uid], urls := filter (\<lambda>r. ID r \<noteq> uid) (urls db)\<rparr>)"
  by (simp add: db_DeleteURL_def send_healthy Let_def)

lemma find_Some_filter_nonempty:
  "find P xs = Some x \<Longrightarrow> filter P xs \<noteq> []"
  by (induction xs) (auto split: if_splits)

lemma DeleteURL_not_found:
  assumes "goes_through (db_errs db)" and "find (\<lambda>r. ID r = uid) (urls db) = None"
  shows "DeleteURL (Some uid) db cache =
           (JSON 404 (ErrorBody ''URL not found''), snd (send (SelectByID uid) db), cache)"
  using assms by (simp add: DeleteURL_def db_GetURLByID_goes_through)

lemma DeleteURL_found:
  assumes "db_errs db = []" and "find (\<lambda>r. ID r = uid) (urls db) = Some url"
  shows "fst (DeleteURL (Some uid) db cache) = Status 204 \<and>
     fst (snd (DeleteURL (Some uid) db cache)) =
       db\<lparr>db_log := db_log db @ [SelectByID uid, Delete uid], urls := filter (\<lambda>r. ID r \<noteq> uid) (urls db)\<rparr> \<and>
     cache_log (snd (snd (DeleteURL (Some uid) db cache))) =
       cache_log cache @ [DEL (id_key uid), DEL (path_key (ShortPath url))] \<and>
     (cache_errs cache = [] \<longrightarrow>
        kv (snd (snd (DeleteURL (Some uid) db cache))) =
          (kv cache)(id_key uid := None, path_key (ShortPath url) := None))"
proof -
  let ?db1 = "db\<lparr>db_log := db_log db @ [SelectByID uid]\<rparr>"
  have g: "db_GetURLByID uid db = (Inr (Some url), ?db1)"
    using assms by (simp add: db_GetURLByID_def send_healthy)
  have nonempty: "filter (\<lambda>r. ID r = uid) (urls db) \<noteq> []"
    using find_Some_filter_nonempty[OF assms(2)] .
  let ?db2 = "db\<lparr>db_log := db_log db @ [SelectByID uid, Delete uid], urls := filter (\<lambda>r. ID r \<noteq> uid) (urls db)\<rparr>"
  have d: "db_DeleteURL uid ?db1 = (None, ?db2)"
    using assms(1) nonempty by (simp add: db_DeleteURL_healthy)
  obtain e1 c1 where x1: "cache_DeleteURLByID uid cache = (e1, c1)" by (cases "cache_DeleteURLByID uid cache")
  obtain e2 c2 where x2: "cache_DeleteURL (ShortPath url) c1 = (e2, c2)" by (cases "cache_DeleteURL (ShortPath url) c1")
  have run: "DeleteURL (Some uid) db cache = (Status 204, ?db2, c2)"
    by (simp add: DeleteURL_def g d x1 x2)
  have l1: "cache_log c1 = cache_log cache @ [DEL (id_key uid)]"
    using cache_del_log[of "id_key uid" cache] x1 by (simp add: cache_DeleteURLByID_def)
  have l2: "cache_log c2 = cache_log c1 @ [DEL (path_key (ShortPath url))]"
    using cache_del_log[of "path_key (ShortPath url)" c1] x2 by (simp add: cache_DeleteURL_def)
  have kvs: "kv c2 = (kv cache)(id_key uid := None, path_key (ShortPath url) := None)"
    if h: "cache_errs cache = []"
  proof -
    have c1: "c1 = cache\<lparr>cache_log := cache_log cache @ [DEL (id_key uid)], kv := (kv cache)(id_key uid := None)\<rparr>"
      using cache_del_healthy[OF h, of "id_key uid"] x1 by (simp add: cache_DeleteURLByID_def)
    then have "cache_errs c1 = []" using h by simp
    then have "c2 = c1\<lparr>cache_log := cache_log c1 @ [DEL (path_key (ShortPath url))],
        kv := (kv c1)(path_key (ShortPath url) := None)\<rparr>"
      using cache_del_healthy[of c1 "path_key (ShortPath url)"] x2 by (simp add: cache_DeleteURL_def)
    with c1 show ?thesis by simp
  qed
  show ?thesis using run l1 l2 kvs by simp
qed

lemma DeleteURL_store_delete_fails:
  assumes "db_errs db = None # Some err # rest" and "find (\<lambda>r. ID r = uid) (urls db) = Some url"
  shows "fst (DeleteURL (Some uid) db cache) = JSON 500 (ErrorBody ''failed to delete URL'') \<and>
     urls (fst (snd (DeleteURL (Some uid) db cache))) = urls db \<and>
     snd (snd (DeleteURL (Some uid) db cache)) = cache"
  using assms by (simp add: DeleteURL_def db_GetURLByID_def db_DeleteURL_def send_def)

text \<open>
  Claim C4. Delete first reads the record by id. If the store has no such record the reply
  is 404, the only statement sent is that read, the table is unchanged and the cache is
  untouched. If the record is found (and the store is healthy) the reply is 204, the
  statements sent are the read and then the delete, the row is gone, and the cache
  received the removal of the id entry and of the entry under the short path just read;
  with a healthy cache both entries are absent afterwards. If the delete statement fails,
  the reply is 500 and the cache is untouched: the removals come after the store delete.
\<close>

theorem delete_reads_deletes_then_invalidates:
  "(goes_through (db_errs db) \<and> find (\<lambda>r. ID r = uid) (urls db) = None \<longrightarrow>
      fst (DeleteURL (Some uid) db cache) = JSON 404 (ErrorBody ''URL not found'') \<and>
      urls (fst (snd (DeleteURL (Some uid) db cache))) = urls db \<and>
      db_log (fst (snd (DeleteURL (Some uid) db cache))) = db_log db @ [SelectByID uid] \<and>
      snd (snd (DeleteURL (Some uid) db cache)) = cache) \<and>
   (db_errs db = [] \<and> find (\<lambda>r. ID r = uid) (urls db) = Some url \<longrightarrow>
      fst (DeleteURL (Some uid) db cache) = Status 204 \<and>
      urls (fst (snd (DeleteURL (Some uid) db cache))) = filter (\<lambda>r. ID r \<noteq> uid) (urls db) \<and>
      db_log (fst (snd (DeleteURL (Some uid) db cache))) = db_log db @ [SelectByID uid, Delete uid] \<and>
      cache_log (snd (snd (DeleteURL (Some uid) db cache))) =
        cache_log cache @ [DEL (id_key uid), DEL (path_key (ShortPath url))] \<and>
      (cache_errs cache = [] \<longrightarrow>
         kv (snd (snd (DeleteURL (Some uid) db cache))) =
           (kv cache)(id_key uid := None, path_key (ShortPath url) := None))) \<and>
   (db_errs db = None # Some err # rest \<and> find (\<lambda>r. ID r = uid) (urls db) = Some url \<longrightarrow>
      fst (DeleteURL (Some uid) db cache) = JSON 500 (ErrorBody ''failed to delete URL'') \<and>
      urls (fst (snd (DeleteURL (Some uid) db cache))) = urls db \<and>
      snd (snd (DeleteURL (Some uid) db cache)) = cache)"
proof (intro conjI impI)
  assume h: "goes_through (db_errs db) \<and> find (\<lambda>r. ID r = uid) (urls db) = None"
  then have run: "DeleteURL (Some uid) db cache =
      (JSON 404 (ErrorBody ''URL not found''), snd (send (SelectByID uid) db), cache)"
    by (simp add: DeleteURL_not_found)
  show "fst (DeleteURL (Some uid) db cache) = JSON 404 (ErrorBody ''URL not found'')"
    and "urls (fst (snd (DeleteURL (Some uid) db cache))) = urls db"
    and "db_log (fst (snd (DeleteURL (Some uid) db cache))) = db_log db @ [SelectByID uid]"
    and "snd (snd (DeleteURL (Some uid) db cache)) = cache"
    by (simp_all add: run send_keeps)
next
  assume h: "db_errs db = [] \<and> find (\<lambda>r. ID r = uid) (urls db) = Some url"
  note f = DeleteURL_found[of db uid url cache]
  show "fst (DeleteURL (Some uid) db cache) = Status 204"
    and "urls (fst (snd (DeleteURL (Some uid) db cache))) = filter (\<lambda>r. ID r \<noteq> uid) (urls db)"
    and "db_log (fst (snd (DeleteURL (Some uid) db cache))) = db_log db @ [SelectByID uid, Delete uid]"
    and "cache_log (snd (snd (DeleteURL (Some uid) db cache))) =
        cache_log cache @ [DEL (id_key uid), DEL (path_key (ShortPath url))]"
    using f h by simp_all
  show "kv (snd (snd (DeleteURL (Some uid) db cache))) =
           (kv cache)(id_key uid := None, path_key (ShortPath url) := None)"
    if "cache_errs cache = []"
    using f h that by simp
next
  assume h: "db_errs db = None # Some err # rest \<and> find (\<lambda>r. ID r = uid) (urls db) = Some url"
  note f = DeleteURL_store_delete_fails[of db err rest uid url cache]
  show "fst (DeleteURL (Some uid) db cache) = JSON 500 (ErrorBody ''failed to delete URL'')"
    and "urls (fst (snd (DeleteURL (Some uid) db cache))) = urls db"
    and "snd (snd (DeleteURL (Some uid) db cache)) = cache"
    using f h by simp_all
qed

theorem delete_reads_deletes_then_invalidates_witness:
  "fst (DeleteURL (Some ''123e4567-e89b-12d3-a456-426614174000'') ex_db ex_cache_warm) =
     JSON 404 (ErrorBody ''URL not found'') \<and>
   urls (fst (snd (DeleteURL (Some ''123e4567-e89b-12d3-a456-426614174000'') ex_db ex_cache_warm))) =
     [ex_url1, ex_url2] \<and>
   snd (snd (DeleteURL (Some ''123e4567-e89b-12d3-a456-426614174000'') ex_db ex_cache_warm)) = ex_cache_warm \<and>
   fst (DeleteURL (Some ''6ba7b810-9dad-11d1-80b4-00c04fd430c8'') ex_db ex_cache_warm) = Status 204 \<and>
   urls (fst (snd (DeleteURL (Some ''6ba7b810-9dad-11d1-80b4-00c04fd430c8'') ex_db ex_cache_warm))) = [ex_url1] \<and>
   cache_log (snd (snd (DeleteURL (Some ''6ba7b810-9dad-11d1-80b4-00c04fd430c8'') ex_db ex_cache_warm))) =
     [DEL ''url_id:6ba7b810-9dad-11d1-80b4-00c04fd430c8'', DEL ''url:promo-2024''] \<and>
   kv (snd (snd (DeleteURL (Some ''6ba7b810-9dad-11d1-80b4-00c04fd430c8'') ex_db ex_cache_warm))) ''url:promo-2024'' = None \<and>
   fst (DeleteURL (Some ''6ba7b810-9dad-11d1-80b4-00c04fd430c8'')
          (ex_db\<lparr>db_errs := [None, Some ''connection reset'']\<rparr>) ex_cache_warm) =
     JSON 500 (ErrorBody ''failed to delete URL'') \<and>
   snd (snd (DeleteURL (Some ''6ba7b810-9dad-11d1-80b4-00c04fd430c8'')
          (ex_db\<lparr>db_errs := [None, Some ''connection reset'']\<rparr>) ex_cache_warm)) = ex_cache_warm"
proof -
  have h0: "goes_through (db_errs ex_db) \<and>
      find (\<lambda>r. ID r = ''123e4567-e89b-12d3-a456-426614174000'') (urls ex_db) = None"
    by (simp add: ex_db_def goes_through_def ex_url1_def ex_url2_def)
  have h1: "db_errs ex_db = [] \<and>
      find (\<lambda>r. ID r = ''6ba7b810-9dad-11d1-80b4-00c04fd430c8'') (urls ex_db) = Some ex_url2"
    by (simp add: ex_db_def ex_url1_def ex_url2_def)
  have h2: "db_errs (ex_db\<lparr>db_errs := [None, Some ''connection reset'']\<rparr>) = None # Some ''connection reset'' # [] \<and>
      find (\<lambda>r. ID r = ''6ba7b810-9dad-11d1-80b4-00c04fd430c8'')
        (urls (ex_db\<lparr>db_errs := [None, Some ''connection reset'']\<rparr>)) = Some ex_url2"
    by (simp add: ex_db_def ex_url1_def ex_url2_def)
  have h3: "cache_errs ex_cache_warm = []"
    by (simp add: ex_cache_warm_def)
  have a: "fst (DeleteURL (Some ''123e4567-e89b-12d3-a456-426614174000'') ex_db ex_cache_warm) =
       JSON 404 (ErrorBody ''URL not found'') \<and>
     urls (fst (snd (DeleteURL (Some ''123e4567-e89b-12d3-a456-426614174000'') ex_db ex_cache_warm))) = urls ex_db \<and>
     snd (snd (DeleteURL (Some ''123e4567-e89b-12d3-a456-426614174000'') ex_db ex_cache_warm)) = ex_cache_warm"
    using delete_reads_deletes_then_invalidates
      [of ex_db "''123e4567-e89b-12d3-a456-426614174000''" ex_cache_warm] h0 by blast
  have b: "fst (DeleteURL (Some ''6ba7b810-9dad-11d1-80b4-00c04fd430c8'') ex_db ex_cache_warm) = Status 204 \<and>
     urls (fst (snd (DeleteURL (Some ''6ba7b810-9dad-11d1-80b4-00c04fd430c8'') ex_db ex_cache_warm))) =
       filter (\<lambda>r. ID r \<noteq> ''6ba7b810-9dad-11d1-80b4-00c04fd430c8'') (urls ex_db) \<and>
     cache_log (snd (snd (DeleteURL (Some ''6ba7b810-9dad-11d1-80b4-00c04fd430c8'') ex_db ex_cache_warm))) =
       cache_log ex_cache_warm @ [DEL (id_key ''6ba7b810-9dad-11d1-80b4-00c04fd430c8''), DEL (path_key (ShortPath ex_url2))] \<and>
     kv (snd (snd (DeleteURL (Some ''6ba7b810-9dad-11d1-80b4-00c04fd430c8'') ex_db ex_cache_warm))) =
       (kv ex_cache_warm)(id_key ''6ba7b810-9dad-11d1-80b4-00c04fd430c8'' := None, path_key (ShortPath ex_url2) := None)"
    using delete_reads_deletes_then_invalidates
      [of ex_db "''6ba7b810-9dad-11d1-80b4-00c04fd430c8''" ex_cache_warm ex_url2] h1 h3 by blast
  have c: "fst (DeleteURL (Some ''6ba7b810-9dad-11d1-80b4-00c04fd430c8'')
          (ex_db\<lparr>db_errs := [None, Some ''connection reset'']\<rparr>) ex_cache_warm) =
       JSON 500 (ErrorBody ''failed to delete URL'') \<and>
     snd (snd (DeleteURL (Some ''6ba7b810-9dad-11d1-80b4-00c04fd430c8'')
          (ex_db\<lparr>db_errs := [None, Some ''connection reset'']\<rparr>) ex_cache_warm)) = ex_cache_warm"
    using delete_reads_deletes_then_invalidates
      [of "ex_db\<lparr>db_errs := [None, Some ''connection reset'']\<rparr>" "''6ba7b810-9dad-11d1-80b4-00c04fd430c8''"
          ex_cache_warm ex_url2 "''connection reset''" "[]"] h2 by blast
  from a b c show ?thesis
    by (simp add: ex_db_def ex_url1_def ex_url2_def ex_cache_warm_def id_key_def path_key_def)
qed

text \<open>
  Claim C6. If the record a redirect looks up, in the cache or (after a cache miss or
  error) in the store, has \<open>expires_at\<close> set and earlier than the handler's clock reading,
  the reply has status 404 and is not the page.
\<close>

theorem redirect_never_serves_expired:
  assumes "expired now url"
  shows "(fst (cache_GetURL shortPath cache) = Inr (Some url) \<longrightarrow>
            status (fst (Redirect tmpl twitterDomain now_db now shortPath db cache)) = Some 404 \<and>
            (\<forall>page. fst (Redirect tmpl twitterDomain now_db now shortPath db cache) \<noteq> HTML page)) \<and>
         ((\<forall>u. fst (cache_GetURL shortPath cache) \<noteq> Inr (Some u)) \<and>
          fst (db_GetURLByShortPath now_db shortPath db) = Inr (Some url) \<longrightarrow>
            status (fst (Redirect tmpl twitterDomain now_db now shortPath db cache)) = Some 404 \<and>
            (\<forall>page. fst (Redirect tmpl twitterDomain now_db now shortPath db cache) \<noteq> HTML page))"
proof (cases "shortPath = []")
  case True
  then show ?thesis by (simp add: Redirect_def)
next
  case False
  obtain got c1 where g: "cache_GetURL shortPath cache = (got, c1)" by (cases "cache_GetURL shortPath cache")
  have cached: "fst (Redirect tmpl twitterDomain now_db now shortPath db cache) = JSON 404 (ErrorBody ''URL has expired'')"
    if "got = Inr (Some url)"
    using that False assms by (simp add: Redirect_def g)
  have stored: "fst (Redirect tmpl twitterDomain now_db now shortPath db cache) = JSON 404 (ErrorBody ''URL has expired'')"
    if miss: "\<forall>u. got \<noteq> Inr (Some u)" and hit: "fst (db_GetURLByShortPath now_db shortPath db) = Inr (Some url)"
  proof -
    have nohit: "(case got of Inl err \<Rightarrow> None | Inr cached \<Rightarrow> cached) = None"
      using miss by (cases got) auto
    obtain db1 where d: "db_GetURLByShortPath now_db shortPath db = (Inr (Some url), db1)"
      using hit by (cases "db_GetURLByShortPath now_db shortPath db") auto
    obtain s1 c2 where s1: "cache_SetURL shortPath (Some url) c1 = (s1, c2)"
      by (cases "cache_SetURL shortPath (Some url) c1")
    show ?thesis
      using False assms by (simp add: Redirect_def g nohit d s1)
  qed
  show ?thesis
    using cached stored g by auto
qed

theorem redirect_never_serves_expired_witness:
  "status (fst (Redirect ex_tmpl ''example.com'' 2000 2000 ''promo-2024'' ex_db ex_cache_warm)) = Some 404 \<and>
   status (fst (Redirect ex_tmpl ''example.com'' 999 1001 ''promo-2024'' ex_db ex_cache)) = Some 404"
proof -
  have e1: "expired 2000 ex_url2" and e2: "expired 1001 ex_url2"
    by (simp_all add: expired_def ex_url2_def)
  have hit: "fst (cache_GetURL ''promo-2024'' ex_cache_warm) = Inr (Some ex_url2)"
    by (simp add: cache_GetURL_def cache_get_def redis_def path_key_def ex_cache_warm_def)
  have miss: "\<forall>u. fst (cache_GetURL ''promo-2024'' ex_cache) \<noteq> Inr (Some u)"
    by (simp add: cache_GetURL_def cache_get_def redis_def path_key_def ex_cache_def)
  have stored: "fst (db_GetURLByShortPath 999 ''promo-2024'' ex_db) = Inr (Some ex_url2)"
    by code_simp
  from redirect_never_serves_expired [OF e1, of "''promo-2024''" ex_cache_warm ex_tmpl "''example.com''" 2000 ex_db] hit
  have a: "status (fst (Redirect ex_tmpl ''example.com'' 2000 2000 ''promo-2024'' ex_db ex_cache_warm)) = Some 404"
    by blast
  from redirect_never_serves_expired [OF e2, of "''promo-2024''" ex_cache ex_tmpl "''example.com''" 999 ex_db] miss stored
  have b: "status (fst (Redirect ex_tmpl ''example.com'' 999 1001 ''promo-2024'' ex_db ex_cache)) = Some 404"
    by blast
  from a b show ?thesis by blast
qed

section \<open>Properties of the write handlers\<close>

lemma Contains_after_prefix: "Contains msg substr \<Longrightarrow> Contains (pre @ msg) substr"
  unfolding Contains_def sublist_def by (metis append.assoc)

text \<open>
  A violated unique index on \<^verbatim>\<open>short_path\<close> as the three write handlers report it. Update
  answers 500, as it does for any failure of the store; patch and create answer 409 when the
  driver's message contains the text the handlers look for.
\<close>

lemma UpdateURL_conflict_is_500:
  assumes "short_path_rejection (up_ShortPath req) = None"
    and "goes_through (db_errs db)" and "find (\<lambda>r. ID r = uid) (urls db) = Some r"
    and "\<exists>r2 \<in> set (urls db). ID r2 \<noteq> uid \<and> ShortPath r2 = ShortPath (set_clauses now req r)"
  shows "fst (UpdateURL (Some uid) (Inr req) now db cache) = JSON 500 (ErrorBody ''failed to update URL'')"
proof -
  obtain db1 where "db_UpdateURL now uid req db = (Inl (''failed to update URL: '' @ unique_msg db), db1)"
    using db_UpdateURL_conflict[OF assms(2,3,4)] by (cases "db_UpdateURL now uid req db") auto
  then show ?thesis using assms(1) by (simp add: UpdateURL_def)
qed

lemma UpdateURL_store_failure_is_500:
  assumes "short_path_rejection (up_ShortPath req) = None" and "db_errs db = Some err # rest"
  shows "fst (UpdateURL (Some uid) (Inr req) now db cache) = JSON 500 (ErrorBody ''failed to update URL'')"
  using assms by (simp add: UpdateURL_def db_UpdateURL_def send_def)

lemma PatchURL_conflict_is_409:
  assumes "short_path_rejection (up_ShortPath req) = None"
    and "goes_through (db_errs db)" and "find (\<lambda>r. ID r = uid) (urls db) = Some r"
    and "\<exists>r2 \<in> set (urls db). ID r2 \<noteq> uid \<and> ShortPath r2 = ShortPath (set_clauses now req r)"
    and "Contains (unique_msg db) ''unique constraint''"
    and "\<not> Contains (''failed to update URL: '' @ unique_msg db) ''not found''"
  shows "fst (PatchURL (Some uid) (Inr req) now db cache) = JSON 409 (ErrorBody ''short path already exists'')"
proof -
  obtain db1 where "db_UpdateURL now uid req db = (Inl (''failed to update URL: '' @ unique_msg db), db1)"
    using db_UpdateURL_conflict[OF assms(2,3,4)] by (cases "db_UpdateURL now uid req db") auto
  then show ?thesis
    using assms(1,6) Contains_after_prefix[OF assms(5), of "''failed to update URL: ''"]
    by (simp add: PatchURL_def)
qed

lemma CreateURL_conflict_is_409:
  assumes "cr_ShortPath req = Some p" and "p \<noteq> []" and "isValidShortPath p"
    and "goes_through (db_errs db)"
    and "\<forall>r \<in> set (urls db). ID r \<noteq> new_id" and "\<exists>r \<in> set (urls db). ShortPath r = p"
    and "Contains (unique_msg db) ''unique constraint''"
  shows "fst (CreateURL (Inr req) now rnd new_id db cache) = JSON 409 (ErrorBody ''short path already exists'')"
proof -
  obtain db1 where s: "send (Insert new_id p) db = (None, db1)" and u: "urls db1 = urls db"
    and m: "unique_msg db1 = unique_msg db"
    using send_goes_through[OF assms(4), of "Insert new_id p"] by (cases "send (Insert new_id p) db") auto
  have "db_CreateURL now rnd new_id req db = (Inl (''failed to create URL: '' @ unique_msg db), db1)"
    using assms(1,2,5,6) by (simp add: db_CreateURL_def s u m)
  then show ?thesis
    using assms(1,2,3) Contains_after_prefix[OF assms(7), of "''failed to create URL: ''"]
    by (simp add: CreateURL_def short_path_rejection_def)
qed

text \<open>
  Claim C7 at a concrete request: a PUT that moves the second record onto the short path of
  the first. The unique index rejects the statement and the handler answers 500 with the
  body it also gives when the connection fails. With the message SQLite gives for the
  violated index, \<^verbatim>\<open>UNIQUE constraint failed: urls.short_path\<close>, the same request sent as a
  PATCH, and a POST that asks for the taken short path, are answered 500 as well: the text
  the two handlers look for is \<^verbatim>\<open>unique constraint\<close> in lower case.
\<close>

theorem update_conflict_answers_500:
  "fst (UpdateURL (Some ''6ba7b810-9dad-11d1-80b4-00c04fd430c8'')
          (Inr (ex_req_title\<lparr>up_ShortPath := Some ''abc123''\<rparr>)) 3000 ex_db ex_cache) =
     JSON 500 (ErrorBody ''failed to update URL'') \<and>
   fst (UpdateURL (Some ''6ba7b810-9dad-11d1-80b4-00c04fd430c8'')
          (Inr (ex_req_title\<lparr>up_ShortPath := Some ''abc123''\<rparr>)) 3000
          (ex_db\<lparr>db_errs := [Some ''connection refused'']\<rparr>) ex_cache) =
     JSON 500 (ErrorBody ''failed to update URL'') \<and>
   fst (PatchURL (Some ''6ba7b810-9dad-11d1-80b4-00c04fd430c8'')
          (Inr (ex_req_title\<lparr>up_ShortPath := Some ''abc123''\<rparr>)) 3000 ex_db ex_cache) =
     JSON 500 (ErrorBody ''failed to update URL'') \<and>
   fst (CreateURL (Inr (ex_create (Some ''abc123''))) 3000 ex_rnd ex_new_id ex_db ex_cache) =
     JSON 500 (ErrorBody ''failed to create URL'')"
  by code_simp

text \<open>
  An identifier that matches no row: the store returns no record and no error. Update
  answers 404; patch encodes the nil record into the cache and fails on the field read.
\<close>

lemma UpdateURL_unknown_id_is_404:
  assumes "short_path_rejection (up_ShortPath req) = None"
    and "goes_through (db_errs db)" and "find (\<lambda>r. ID r = uid) (urls db) = None"
  shows "UpdateURL (Some uid) (Inr req) now db cache =
           (JSON 404 (ErrorBody ''URL not found''), snd (send (Update uid req) db), cache)"
  using assms by (simp add: UpdateURL_def db_UpdateURL_unknown_id)

lemma PatchURL_unknown_id_panics:
  assumes "short_path_rejection (up_ShortPath req) = None"
    and "goes_through (db_errs db)" and "find (\<lambda>r. ID r = uid) (urls db) = None"
  shows "fst (PatchURL (Some uid) (Inr req) now db cache) = NilDeref \<and>
         cache_log (snd (snd (PatchURL (Some uid) (Inr req) now db cache))) =
           cache_log cache @ [SET (id_key uid) None]"
proof -
  obtain e1 c1 where x: "cache_SetURLByID uid None cache = (e1, c1)" by (cases "cache_SetURLByID uid None cache")
  have l: "cache_log c1 = cache_log cache @ [SET (id_key uid) None]"
    using cache_set_log[of "id_key uid" None cache] x by (simp add: cache_SetURLByID_def)
  show ?thesis
    using assms l by (simp add: PatchURL_def db_UpdateURL_unknown_id x)
qed

text \<open>
  Claim C8 at a concrete request: a PATCH for a well-formed identifier the store does not
  hold. The handler panics on the nil record, after storing \<^verbatim>\<open>null\<close> under the id key; the
  same request sent as a PUT is answered 404.
\<close>

theorem patch_unknown_id_panics:
  "fst (PatchURL (Some ''123e4567-e89b-12d3-a456-426614174000'') (Inr ex_req_title) 3000 ex_db ex_cache) = NilDeref \<and>
   kv (snd (snd (PatchURL (Some ''123e4567-e89b-12d3-a456-426614174000'') (Inr ex_req_title) 3000 ex_db ex_cache)))
     ''url_id:123e4567-e89b-12d3-a456-426614174000'' = Some None \<and>
   fst (UpdateURL (Some ''123e4567-e89b-12d3-a456-426614174000'') (Inr ex_req_title) 3000 ex_db ex_cache) =
     JSON 404 (ErrorBody ''URL not found'')"
  by code_simp

section \<open>Properties of the list handler\<close>

text \<open>
  The page passed to the store is at least 1 and the limit is between 1 and 100; with a
  healthy store the statements sent are the count and the page query with these values.
  The offset is the exact product, and so not negative, as long as the page is at most
  92233720368547758.
\<close>

lemma sint_clamped_page: "1 \<le> sint (if sint page0 < 1 then 1 else page0 :: 64 word)"
  by simp

lemma sint_clamped_limit:
  "1 \<le> sint (if sint limit0 < 1 \<or> sint limit0 > 100 then 10 else limit0 :: 64 word) \<and>
   sint (if sint limit0 < 1 \<or> sint limit0 > 100 then 10 else limit0 :: 64 word) \<le> 100"
  by simp

lemma ListURLs_offset_exact:
  assumes "1 \<le> sint page" "sint page \<le> 92233720368547758" "1 \<le> sint limit" "sint limit \<le> 100"
  shows "sint (ListURLs_offset page limit) = (sint page - 1) * sint limit \<and>
         0 \<le> sint (ListURLs_offset page limit)"
proof -
  have lo: "- (2 ^ 63) \<le> sint page - 1" and hi: "sint page - 1 < 2 ^ 63"
    using assms(1,2) by simp_all
  have p1: "signed_take_bit 63 (sint page - 1) = sint page - 1"
    using lo hi by (simp add: signed_take_bit_int_eq_self)
  have nonneg: "0 \<le> (sint page - 1) * sint limit"
    using assms(1,3) by simp
  have "(sint page - 1) * sint limit \<le> 92233720368547757 * 100"
    using assms by (intro mult_mono) simp_all
  then have small: "(sint page - 1) * sint limit < 2 ^ 63"
    by simp
  have "sint ((page - 1) * limit) = (sint page - 1) * sint limit"
    using nonneg small by (simp add: sint_word_ariths p1 signed_take_bit_int_eq_self)
  then show ?thesis
    using nonneg by (simp add: ListURLs_offset_def)
qed

lemma ListURLs_statements:
  assumes "db_errs db = []"
  shows "db_log (fst (snd (ListURLs page0 limit0 db cache))) =
     db_log db @
       [SelectCount,
        SelectPage (if sint limit0 < 1 \<or> sint limit0 > 100 then 10 else limit0)
          (ListURLs_offset (if sint page0 < 1 then 1 else page0)
             (if sint limit0 < 1 \<or> sint limit0 > 100 then 10 else limit0))]"
  using assms by (simp add: ListURLs_def db_ListURLs_def send_healthy Let_def)

text \<open>
  Claim C10 at a concrete request: page 9223372036854775807 with limit 10. Both pass the
  handler's checks unchanged, the 64-bit product wraps, and the page query is sent with
  the offset -20.
\<close>

theorem list_offset_wraps_negative:
  "sint (ListURLs_offset 9223372036854775807 10) = - 20 \<and>
   db_log (fst (snd (ListURLs 9223372036854775807 10 ex_db ex_cache))) =
     [SelectCount, SelectPage 10 (ListURLs_offset 9223372036854775807 10)]"
  by code_simp

end
